theory Spec2Isabelle
  imports Complex_Main "HOL-Library.Product_Lexorder" "HOL-Library.Log_Nat"
begin

section \<open>Python values and library operations used by main.py\<close>

text \<open>
  The program is a Python script (\<^verbatim>\<open>src/main.py\<close>). Its integers are unbounded
  (\<^typ>\<open>int\<close>). Its floats (zoom and scale factors, confidences) are reals; the
  quotients that \<^verbatim>\<open>add_new_defect_region\<close> truncates are rounded to the nearest double
  as Python rounds them, the clamps and products of the zoom code are exact. Its strings are
  modelled as \<^typ>\<open>string\<close> holding the text (UTF-8 for the Chinese class names);
  whitespace and digits outside ASCII are treated as ordinary characters.
  Exceptions are values of \<open>py_error\<close>; a function that may raise returns
  \<open>py_error + 'a\<close> with \<open>Inl\<close> for the exception.
\<close>

datatype py_error =
    IndexError
  | TypeError
  | ValueError
  | ZeroDivisionError
  | UnboundLocalError
  | AttributeError
  | FileNotFoundError
  | OverflowError
  | OtherException

text \<open>\<^verbatim>\<open>d.get(key, default)\<close> on a dict whose key may be absent (\<open>None\<close>).\<close>

definition dict_get :: "'a option \<Rightarrow> 'a \<Rightarrow> 'a" where
  "dict_get v d = (case v of None \<Rightarrow> d | Some a \<Rightarrow> a)"

text \<open>\<^verbatim>\<open>xs[i]\<close>: negative indices count from the end, anything else out of range raises.\<close>

definition py_getitem :: "'a list \<Rightarrow> int \<Rightarrow> py_error + 'a" where
  "py_getitem xs i =
     (if 0 \<le> i \<and> i < int (length xs) then Inr (xs ! nat i)
      else if i < 0 \<and> - int (length xs) \<le> i then Inr (xs ! nat (int (length xs) + i))
      else Inl IndexError)"

text \<open>\<^verbatim>\<open>int(f)\<close> on a float truncates towards zero.\<close>

definition int_of_float :: "real \<Rightarrow> int" where
  "int_of_float f = (if 0 \<le> f then \<lfloor>f\<rfloor> else \<lceil>f\<rceil>)"

subsection \<open>Floats\<close>

text \<open>
  Python's \<^verbatim>\<open>float\<close> is the IEEE 754 double: 53 significant bits, exponents of normal
  numbers from \<open>-1022\<close> to 1023, results rounded to the nearest double, ties to the even
  one. \<open>float_exponent x\<close> is the integer \<open>e\<close> with \<open>2^e \<le> |x| < 2^(e+1)\<close> for a
  non-zero \<open>x\<close>; \<open>round_to_float\<close> rounds a real to the nearest multiple of the
  spacing \<open>2^(e-52)\<close> of the doubles around it (of \<open>2^(-1074)\<close> below the normal
  range). A result of magnitude \<open>2^1024\<close> or more is beyond the doubles.
\<close>

definition pow2 :: "int \<Rightarrow> real" where
  "pow2 k = (if 0 \<le> k then 2 ^ nat k else 1 / 2 ^ nat (- k))"

definition round_half_even :: "real \<Rightarrow> int" where
  "round_half_even x =
     (let f = \<lfloor>x\<rfloor>; r = x - real_of_int f
      in if r < 1 / 2 then f
         else if 1 / 2 < r then f + 1
         else if even f then f else f + 1)"

definition float_exponent :: "real \<Rightarrow> int" where
  "float_exponent x =
     (if 1 \<le> \<bar>x\<bar> then int (floorlog 2 (nat \<lfloor>\<bar>x\<bar>\<rfloor>)) - 1
      else - int (floorlog 2 (nat (\<lceil>1 / \<bar>x\<bar>\<rceil> - 1))))"

definition round_to_float :: "real \<Rightarrow> real" where
  "round_to_float x =
     (if x = 0 then 0
      else (let q = pow2 (max (- 1022) (float_exponent x) - 52)
            in q * real_of_int (round_half_even (x / q))))"

text \<open>
  \<^verbatim>\<open>float(n)\<close> for an int, as the division \<^verbatim>\<open>n / f\<close> converts its left operand, and
  \<^verbatim>\<open>a / b\<close> on two floats. An int too large for a double raises at once; a quotient
  too large is infinite and raises when \<^verbatim>\<open>int()\<close> is applied to it.
\<close>

definition float_of_int :: "int \<Rightarrow> py_error + real" where
  "float_of_int n =
     (let r = round_to_float (real_of_int n)
      in if 2 ^ 1024 \<le> \<bar>r\<bar> then Inl OverflowError else Inr r)"

definition float_truediv :: "real \<Rightarrow> real \<Rightarrow> py_error + real" where
  "float_truediv a b =
     (if b = 0 then Inl ZeroDivisionError
      else (let r = round_to_float (a / b)
            in if 2 ^ 1024 \<le> \<bar>r\<bar> then Inl OverflowError else Inr r))"

subsection \<open>Strings\<close>

definition py_isspace :: "char \<Rightarrow> bool" where
  "py_isspace c =
     (c \<in> set [CHR 0x09, CHR 0x0A, CHR 0x0B, CHR 0x0C, CHR 0x0D,
               CHR 0x1C, CHR 0x1D, CHR 0x1E, CHR 0x1F, CHR 0x20])"

definition strip_by :: "(char \<Rightarrow> bool) \<Rightarrow> string \<Rightarrow> string" where
  "strip_by P s = rev (dropWhile P (rev (dropWhile P s)))"

text \<open>\<^verbatim>\<open>s.strip()\<close> and \<^verbatim>\<open>s.strip(chars)\<close>.\<close>

definition py_strip :: "string \<Rightarrow> string" where
  "py_strip s = strip_by py_isspace s"

definition py_strip_chars :: "string \<Rightarrow> string \<Rightarrow> string" where
  "py_strip_chars chars s = strip_by (\<lambda>c. c \<in> set chars) s"

text \<open>\<^verbatim>\<open>s.startswith(p)\<close>.\<close>

definition py_startswith :: "string \<Rightarrow> string \<Rightarrow> bool" where
  "py_startswith s p = (take (length p) s = p)"

text \<open>\<^verbatim>\<open>s.split(sep)\<close> for a one-character separator: every occurrence splits.\<close>

fun py_split :: "char \<Rightarrow> string \<Rightarrow> string list" where
  "py_split sep [] = [[]]"
| "py_split sep (c # cs) =
     (if c = sep then [] # py_split sep cs
      else (case py_split sep cs of
              [] \<Rightarrow> [[c]]
            | p # ps \<Rightarrow> (c # p) # ps))"

text \<open>\<^verbatim>\<open>s.split(sep, 1)\<close>: only the first occurrence splits.\<close>

definition py_split1 :: "char \<Rightarrow> string \<Rightarrow> string list" where
  "py_split1 sep s =
     (case dropWhile (\<lambda>c. c \<noteq> sep) s of
        [] \<Rightarrow> [s]
      | _ # rest \<Rightarrow> [takeWhile (\<lambda>c. c \<noteq> sep) s, rest])"

definition is_digit :: "char \<Rightarrow> bool" where
  "is_digit c = (c \<in> set ''0123456789'')"

definition digit_val :: "char \<Rightarrow> int" where
  "digit_val c = int (of_char c) - 48"

text \<open>
  Decimal digits, where single underscores may separate digits (\<^verbatim>\<open>int('1_0') == 10\<close>);
  the accumulator holds the value read so far.
\<close>

fun py_digits :: "string \<Rightarrow> int \<Rightarrow> int option" where
  "py_digits [] acc = Some acc"
| "py_digits (c # cs) acc =
     (if is_digit c then py_digits cs (10 * acc + digit_val c)
      else if c = CHR ''_'' then
        (case cs of
           [] \<Rightarrow> None
         | d # _ \<Rightarrow> if is_digit d then py_digits cs acc else None)
      else None)"

definition py_unsigned :: "string \<Rightarrow> int option" where
  "py_unsigned s =
     (case s of
        [] \<Rightarrow> None
      | d # _ \<Rightarrow> if is_digit d then py_digits s 0 else None)"

text \<open>
  \<^verbatim>\<open>int(s)\<close> on a string: surrounding whitespace is dropped, one sign is allowed,
  then decimal digits; \<open>None\<close> stands for the \<^verbatim>\<open>ValueError\<close>.
\<close>

definition py_int :: "string \<Rightarrow> int option" where
  "py_int s =
     (case py_strip s of
        [] \<Rightarrow> None
      | c # cs \<Rightarrow>
          if c = CHR ''-'' then map_option uminus (py_unsigned cs)
          else if c = CHR ''+'' then py_unsigned cs
          else py_unsigned (c # cs))"

section \<open>ClassManager: the class catalog\<close>

text \<open>
  The display names of the built-in classes are Chinese text in the source; they are
  given here as their UTF-8 bytes, under English constant names.
\<close>

definition name_waste_silk :: string where
  "name_waste_silk =
     [CHR 0xE5, CHR 0xBA, CHR 0x9F, CHR 0xE4, CHR 0xB8, CHR 0x9D]"

definition name_large_slub :: string where
  "name_large_slub =
     [CHR 0xE5, CHR 0xA4, CHR 0xA7, CHR 0xE7, CHR 0xB3, CHR 0x99]"

definition name_adhering_slub :: string where
  "name_adhering_slub =
     [CHR 0xE7, CHR 0xB2, CHR 0x98, CHR 0xE9, CHR 0x99, CHR 0x84, CHR 0xE7, CHR 0xB3,
      CHR 0x99]"

definition name_large_long_knot :: string where
  "name_large_long_knot =
     [CHR 0xE5, CHR 0xA4, CHR 0xA7, CHR 0xE9, CHR 0x95, CHR 0xBF, CHR 0xE7, CHR 0xBB,
      CHR 0x93]"

definition name_heavy_spiral :: string where
  "name_heavy_spiral =
     [CHR 0xE9, CHR 0x87, CHR 0x8D, CHR 0xE8, CHR 0x9E, CHR 0xBA, CHR 0xE6, CHR 0x97,
      CHR 0x8B]"

definition name_small_slub :: string where
  "name_small_slub =
     [CHR 0xE5, CHR 0xB0, CHR 0x8F, CHR 0xE7, CHR 0xB3, CHR 0x99]"

definition name_long_knot :: string where
  "name_long_knot =
     [CHR 0xE9, CHR 0x95, CHR 0xBF, CHR 0xE7, CHR 0xBB, CHR 0x93]"

definition name_spiral :: string where
  "name_spiral =
     [CHR 0xE8, CHR 0x9E, CHR 0xBA, CHR 0xE6, CHR 0x97, CHR 0x8B]"

definition name_loop_and_split :: string where
  "name_loop_and_split =
     [CHR 0xE7, CHR 0x8E, CHR 0xAF, CHR 0xE5, CHR 0x8F, CHR 0x8A, CHR 0xE8, CHR 0xA3,
      CHR 0x82, CHR 0xE4, CHR 0xB8, CHR 0x9D]"

definition name_extra_large_slub :: string where
  "name_extra_large_slub =
     [CHR 0xE7, CHR 0x89, CHR 0xB9, CHR 0xE5, CHR 0xA4, CHR 0xA7, CHR 0xE7, CHR 0xB3,
      CHR 0x99, CHR 0xE7, CHR 0x96, CHR 0xB5]"

definition name_cleanliness :: string where
  "name_cleanliness =
     [CHR 0xE6, CHR 0xB4, CHR 0x81, CHR 0xE5, CHR 0x87, CHR 0x80, CHR 0xE5, CHR 0xBA,
      CHR 0xA6]"

definition name_non_defect :: string where
  "name_non_defect =
     [CHR 0xE9, CHR 0x9D, CHR 0x9E, CHR 0xE7, CHR 0xBC, CHR 0xBA, CHR 0xE9, CHR 0x99,
      CHR 0xB7]"

definition name_defect :: string where
  "name_defect =
     [CHR 0xE7, CHR 0xBC, CHR 0xBA, CHR 0xE9, CHR 0x99, CHR 0xB7]"

text \<open>
  The dict assigned in the \<^verbatim>\<open>except FileNotFoundError\<close> branch, and the one assigned
  in the \<^verbatim>\<open>except Exception\<close> branch.
\<close>

definition default_classes :: "int \<rightharpoonup> string" where
  "default_classes =
     map_of [(0, name_waste_silk), (1, name_large_slub), (2, name_adhering_slub),
             (3, name_large_long_knot), (4, name_heavy_spiral), (5, name_small_slub),
             (6, name_long_knot), (7, name_spiral), (8, name_loop_and_split),
             (9, name_extra_large_slub), (10, name_cleanliness), (11, name_non_defect)]"

definition error_classes :: "int \<rightharpoonup> string" where
  "error_classes = map_of [(11, name_non_defect), (1, name_defect)]"

text \<open>
  What opening and reading the catalog file gives: no such file; the lines of the file,
  as the file iterator yields them; or some lines and then another error of the
  operating system or the decoder (with no line when \<^verbatim>\<open>open\<close> itself fails).
\<close>

datatype file_contents =
    NoSuchFile
  | FileLines "string list"
  | ReadFailsAfter "string list"

text \<open>One pass of the loop body of \<^verbatim>\<open>load_classes\<close> over a line.\<close>

definition load_line :: "string \<Rightarrow> (int \<rightharpoonup> string) \<Rightarrow> py_error + (int \<rightharpoonup> string)" where
  "load_line raw classes =
     (let line = py_strip raw in
      if line \<noteq> [] \<and> CHR '','' \<in> set line then
        (case py_split1 (CHR '','') line of
           [p0, p1] \<Rightarrow>
             (case py_int p0 of
                None \<Rightarrow> Inl ValueError
              | Some class_id \<Rightarrow>
                  Inr (classes(class_id \<mapsto> py_strip_chars [CHR 0x22] p1)))
         | _ \<Rightarrow> Inl IndexError)
      else Inr classes)"

fun load_lines :: "string list \<Rightarrow> (int \<rightharpoonup> string) \<Rightarrow> py_error + (int \<rightharpoonup> string)" where
  "load_lines [] classes = Inr classes"
| "load_lines (l # ls) classes =
     (case load_line l classes of
        Inl e \<Rightarrow> Inl e
      | Inr classes' \<Rightarrow> load_lines ls classes')"

text \<open>The \<^verbatim>\<open>try\<close> block of \<^verbatim>\<open>load_classes\<close>, started on the dict \<open>classes\<close>.\<close>

definition load_classes_try :: "file_contents \<Rightarrow> (int \<rightharpoonup> string) \<Rightarrow> py_error + (int \<rightharpoonup> string)" where
  "load_classes_try f classes =
     (case f of
        NoSuchFile \<Rightarrow> Inl FileNotFoundError
      | FileLines ls \<Rightarrow> load_lines ls classes
      | ReadFailsAfter ls \<Rightarrow>
          (case load_lines ls classes of
             Inl e \<Rightarrow> Inl e
           | Inr _ \<Rightarrow> Inl OtherException))"

text \<open>\<^verbatim>\<open>ClassManager.load_classes\<close>: the value of \<^verbatim>\<open>self.classes\<close> afterwards.\<close>

definition load_classes :: "file_contents \<Rightarrow> (int \<rightharpoonup> string) \<Rightarrow> (int \<rightharpoonup> string)" where
  "load_classes f classes =
     (case load_classes_try f classes of
        Inr classes' \<Rightarrow> classes'
      | Inl e \<Rightarrow> if e = FileNotFoundError then default_classes else error_classes)"

text \<open>\<^verbatim>\<open>ClassManager.__init__\<close> starts from the empty dict.\<close>

definition ClassManager :: "file_contents \<Rightarrow> (int \<rightharpoonup> string)" where
  "ClassManager f = load_classes f Map.empty"

section \<open>Data model: the JSON document\<close>

text \<open>
  Regions and image entries are Python dicts read from JSON; the code reads their keys
  with \<^verbatim>\<open>.get(key, default)\<close>, so every key is optional in the model.
\<close>

record label_entry =
  label :: "int option"
  confidence :: "real option"

record region =
  final_label_index :: "int option"
  region_height :: "int option"
  imgPath :: "string option"
  isSure :: "bool option"
  label_confidence :: "label_entry list option"
  modified_status :: "int option"
  region_width :: "int option"
  region_x :: "int option"
  region_y :: "int option"
  yolo_confidence :: "real option"

text \<open>The empty dict \<^verbatim>\<open>{}\<close> read as a region: every key absent.\<close>

definition empty_region :: region where
  "empty_region =
     \<lparr>final_label_index = None, region_height = None, imgPath = None, isSure = None,
      label_confidence = None, modified_status = None, region_width = None,
      region_x = None, region_y = None, yolo_confidence = None\<rparr>"

definition mk_entry :: "int \<Rightarrow> real \<Rightarrow> label_entry" where
  "mk_entry l c = \<lparr>label = Some l, confidence = Some c\<rparr>"

text \<open>
  An image entry of \<^verbatim>\<open>all_pic_info\<close> and the document around it. A dict with no key at
  all is falsy in Python, which \<open>empty_document\<close> and \<open>empty_blackboard\<close> stand for.
\<close>

record pic_info =
  connectButtonName :: "string option"
  column :: "int option"
  pic_index :: "int option"
  pic_imgPath :: "string option"
  pic_regions :: "region list option"

record blackboard =
  all_pic_info :: "pic_info list option"

record document =
  batchName :: "string option"
  currentBlackboard :: "blackboard option"

definition empty_blackboard :: blackboard where
  "empty_blackboard = \<lparr>all_pic_info = None\<rparr>"

definition empty_document :: document where
  "empty_document = \<lparr>batchName = None, currentBlackboard = None\<rparr>"

section \<open>Label resolver\<close>

text \<open>
  \<^verbatim>\<open>get_region_class_id\<close> (the same text in ImageLabel, DetailDialog and ImageButton):
  the body of the \<^verbatim>\<open>try\<close>, then the handler for IndexError and TypeError.
\<close>

definition entry_label :: "label_entry \<Rightarrow> int" where
  "entry_label e = dict_get (label e) 11"

definition get_region_class_id_try :: "region \<Rightarrow> py_error + int" where
  "get_region_class_id_try r =
     (let fli = dict_get (final_label_index r) 0;
          lc = dict_get (label_confidence r) []
      in if 0 \<le> fli \<and> fli < int (length lc) then
           map_sum id entry_label (py_getitem lc fli)
         else if lc \<noteq> [] then
           map_sum id entry_label (py_getitem lc 0)
         else Inr 11)"

definition get_region_class_id :: "region \<Rightarrow> py_error + int" where
  "get_region_class_id r =
     (case get_region_class_id_try r of
        Inr c \<Rightarrow> Inr c
      | Inl e \<Rightarrow> if e = IndexError \<or> e = TypeError then Inr 11 else Inl e)"

section \<open>ImageLabel: the image view\<close>

text \<open>
  The fields of \<^verbatim>\<open>ImageLabel\<close> that the geometry and selection code reads or writes.
  \<open>original_pixmap\<close> is the size of the loaded pixmap (\<open>None\<close> when no pixmap is held);
  \<open>scroll_area\<close> tells whether \<^verbatim>\<open>set_scroll_area\<close> has stored a scroll area.
  \<open>label_regions\<close> is \<^verbatim>\<open>self.regions\<close>: the list handed over by
  \<^verbatim>\<open>set_image_and_regions\<close>, which is the dialog's own list object whenever that list
  is not empty. Scroll bar positions and pixmaps are Qt widget state and are left out.
\<close>

record image_label =
  original_pixmap :: "(int \<times> int) option"
  label_regions :: "region list"
  scale_factor :: real
  zoom_factor :: real
  selected_region_index :: int
  label_regions_visible :: bool
  label_add_defect_mode :: bool
  drawing :: bool
  panning :: bool
  scroll_area :: bool

text \<open>\<^verbatim>\<open>ImageLabel.__init__\<close>: the view before any image is set.\<close>

definition ImageLabel_init :: image_label where
  "ImageLabel_init =
     \<lparr>original_pixmap = None, label_regions = [], scale_factor = 1.0, zoom_factor = 1.0,
      selected_region_index = - 1, label_regions_visible = True,
      label_add_defect_mode = False, drawing = False, panning = False,
      scroll_area = False\<rparr>"

text \<open>
  \<^verbatim>\<open>update_display\<close>: nothing without a pixmap or when a scaled side is not positive;
  otherwise the scale factor used for drawing and hit-testing follows the zoom factor.
\<close>

definition update_display :: "image_label \<Rightarrow> image_label" where
  "update_display l =
     (case original_pixmap l of
        None \<Rightarrow> l
      | Some (w, h) \<Rightarrow>
          (let new_width = int_of_float (real_of_int w * zoom_factor l);
               new_height = int_of_float (real_of_int h * zoom_factor l)
           in if new_width \<le> 0 \<or> new_height \<le> 0 then l
              else l\<lparr>scale_factor := zoom_factor l\<rparr>))"

text \<open>
  \<^verbatim>\<open>set_image_and_regions\<close>; \<open>loaded\<close> is what loading the file at the given path gives:
  \<open>None\<close> when the path is empty or the file does not exist, else the size of the pixmap
  read (a null pixmap, when the file cannot be decoded, has size \<open>(0, 0)\<close>).
\<close>

definition set_image_and_regions ::
  "(int \<times> int) option \<Rightarrow> region list \<Rightarrow> image_label \<Rightarrow> image_label" where
  "set_image_and_regions loaded rs l =
     (let l1 = l\<lparr>label_regions := rs\<rparr> in
      case loaded of
        None \<Rightarrow> l1
      | Some sz \<Rightarrow>
          (let l2 = l1\<lparr>original_pixmap := Some sz\<rparr> in
           if sz = (0, 0) then l2 else update_display l2))"

definition set_selected_region :: "int \<Rightarrow> image_label \<Rightarrow> image_label" where
  "set_selected_region region_index l =
     update_display (l\<lparr>selected_region_index := region_index\<rparr>)"

text \<open>\<^verbatim>\<open>focus_on_region\<close>; the scroll to the region's centre is deferred widget work.\<close>

definition focus_on_region :: "int \<Rightarrow> image_label \<Rightarrow> image_label" where
  "focus_on_region region_index l =
     (if 0 \<le> region_index \<and> region_index < int (length (label_regions l)) then
        update_display (l\<lparr>zoom_factor := 1.0, selected_region_index := region_index\<rparr>)
      else l)"

definition set_add_defect_mode :: "bool \<Rightarrow> image_label \<Rightarrow> image_label" where
  "set_add_defect_mode enabled l =
     (let l1 = l\<lparr>label_add_defect_mode := enabled\<rparr> in
      if enabled then l1 else update_display (l1\<lparr>drawing := False\<rparr>))"

subsection \<open>Hit-testing a click\<close>

text \<open>
  The signals \<^verbatim>\<open>ImageLabel\<close> emits, and the mouse buttons of a release event. A release of
  the right button carries the rectangle \<^verbatim>\<open>QRect(start_point, end_point).normalized()\<close>
  as Qt computed it: \<open>(x, y, width, height)\<close>.
\<close>

datatype signal =
    region_clicked int
  | new_region_created int int int int
  | region_unselected

datatype mouse_button = LeftButton | RightButton | MiddleButton

text \<open>
  The test of the loop body of \<^verbatim>\<open>mouseReleaseEvent\<close>: the region's four numbers are
  scaled and truncated one by one, and both borders of the box count as inside.
\<close>

definition region_hit :: "real \<Rightarrow> int \<times> int \<Rightarrow> region \<Rightarrow> bool" where
  "region_hit sf click_pos r =
     (let x = int_of_float (real_of_int (dict_get (region_x r) 0) * sf);
          y = int_of_float (real_of_int (dict_get (region_y r) 0) * sf);
          width = int_of_float (real_of_int (dict_get (region_width r) 0) * sf);
          height = int_of_float (real_of_int (dict_get (region_height r) 0) * sf)
      in x \<le> fst click_pos \<and> fst click_pos \<le> x + width \<and>
         y \<le> snd click_pos \<and> snd click_pos \<le> y + height)"

text \<open>
  The loop \<^verbatim>\<open>for i, region in enumerate(self.regions)\<close> with its \<^verbatim>\<open>break\<close>; \<open>i\<close> is the
  index of the head of the list still to be tested.
\<close>

fun find_clicked_region :: "real \<Rightarrow> int \<times> int \<Rightarrow> nat \<Rightarrow> region list \<Rightarrow> nat option" where
  "find_clicked_region sf click_pos i [] = None"
| "find_clicked_region sf click_pos i (r # rs) =
     (if region_hit sf click_pos r then Some i
      else find_clicked_region sf click_pos (Suc i) rs)"

text \<open>The click branch of \<^verbatim>\<open>mouseReleaseEvent\<close> (left button, not panning).\<close>

definition click_select :: "image_label \<Rightarrow> int \<times> int \<Rightarrow> signal" where
  "click_select l click_pos =
     (if label_regions l \<noteq> [] then
        (case find_clicked_region (scale_factor l) click_pos 0 (label_regions l) of
           Some i \<Rightarrow> region_clicked (int i)
         | None \<Rightarrow> region_unselected)
      else region_unselected)"

definition mouseReleaseEvent ::
  "mouse_button \<Rightarrow> int \<times> int \<Rightarrow> int \<times> int \<times> int \<times> int \<Rightarrow> image_label \<Rightarrow>
   image_label \<times> signal list" where
  "mouseReleaseEvent button pos final_rect l =
     (if button = RightButton \<and> drawing l \<and> label_add_defect_mode l then
        (case final_rect of (rx, ry, rw, rh) \<Rightarrow>
           (l\<lparr>drawing := False\<rparr>,
            if rw \<ge> 10 \<and> rh \<ge> 10 then [new_region_created rx ry rw rh] else []))
      else if button = LeftButton then
        (if panning l then (l\<lparr>panning := False\<rparr>, [])
         else (l, [click_select l pos]))
      else (l, []))"

subsection \<open>Zoom\<close>

text \<open>The clamp \<^verbatim>\<open>max(0.1, min(5.0, z))\<close> used by every zoom path.\<close>

definition clamp_zoom :: "real \<Rightarrow> real" where
  "clamp_zoom z = max 0.1 (min 5.0 z)"

text \<open>
  \<^verbatim>\<open>wheelEvent\<close>, with \<open>delta\<close> the vertical angle delta of the wheel. The zoom factor is
  stored before the test for a change below 0.001, which only skips the redraw.
\<close>

definition wheelEvent :: "int \<Rightarrow> image_label \<Rightarrow> image_label" where
  "wheelEvent delta l =
     (if original_pixmap l \<noteq> None \<and> scroll_area l then
        (let old_zoom_factor = zoom_factor l;
             zoom_step = 0.1;
             z = (if delta > 0 then zoom_factor l * (1 + zoom_step)
                  else zoom_factor l * (1 - zoom_step));
             l1 = l\<lparr>zoom_factor := clamp_zoom z\<rparr>
         in if \<bar>zoom_factor l1 - old_zoom_factor\<bar> < 0.001 then l1
            else update_display l1)
      else l)"

text \<open>
  The fallback branches of \<^verbatim>\<open>ImageLabel.keyPressEvent\<close> for the keys plus, minus and 0,
  taken when the label has no parent dialog with zoom methods.
\<close>

datatype zoom_key = KeyPlus | KeyMinus | KeyZero

definition key_zoom_fallback :: "zoom_key \<Rightarrow> image_label \<Rightarrow> image_label" where
  "key_zoom_fallback k l =
     (if original_pixmap l \<noteq> None then
        (case k of
           KeyPlus \<Rightarrow> update_display (l\<lparr>zoom_factor := min 5.0 (zoom_factor l * 1.1)\<rparr>)
         | KeyMinus \<Rightarrow> update_display (l\<lparr>zoom_factor := max 0.1 (zoom_factor l * 0.9)\<rparr>)
         | KeyZero \<Rightarrow> update_display (l\<lparr>zoom_factor := 1.0\<rparr>))
      else l)"

section \<open>DetailDialog: editing the regions of one image\<close>

text \<open>
  Message boxes shown by the dialog, by what they report.
\<close>

datatype notice =
    DeleteNeedsSelection
  | DeleteSucceeded
  | DeleteFailed
  | AddSucceeded
  | AddFailed
  | AllConfirmed
  | LabelIndexOutOfRange
  | SaveSucceeded
  | SaveMethodMissing
  | SaveError

text \<open>
  The state of a \<^verbatim>\<open>DetailDialog\<close>. \<open>regions\<close> is \<^verbatim>\<open>self.button.regions\<close>;
  \<open>image_label\<close> is \<open>None\<close> when the dialog was built without an image view (the test
  \<^verbatim>\<open>hasattr(self, 'image_label') and self.image_label\<close> fails); \<open>image_file\<close> is what
  loading \<^verbatim>\<open>self.actual_img_path\<close> gives (see \<open>set_image_and_regions\<close>);
  \<open>modify_spin\<close> is the value of the status spin box, whose range is 0 to 2;
  the two \<open>updating\<close> flags stand for the attributes \<^verbatim>\<open>_updating_class_selection\<close> and
  \<^verbatim>\<open>_updating_modify_status\<close> being set; \<open>notices\<close> collects the message boxes
  shown, latest last; \<open>close_called\<close> records a call of \<^verbatim>\<open>self.close()\<close>.
\<close>

record dialog =
  regions :: "region list"
  current_region_index :: int
  regions_modified :: bool
  regions_visible :: bool
  add_defect_mode :: bool
  image_label :: "image_label option"
  image_file :: "(int \<times> int) option"
  modify_spin :: int
  updating_class_selection :: bool
  updating_modify_status :: bool
  notices :: "notice list"
  close_called :: bool

text \<open>
  A handler returns the state it leaves and the exception that escaped it, if any;
  \<open>and_then\<close> runs the next statement unless an exception is on its way.
\<close>

definition and_then ::
  "py_error option \<times> 'a \<Rightarrow> ('a \<Rightarrow> py_error option \<times> 'a) \<Rightarrow> py_error option \<times> 'a" where
  "and_then r f = (case r of (None, d) \<Rightarrow> f d | (Some e, d) \<Rightarrow> (Some e, d))"

text \<open>\<^verbatim>\<open>if hasattr(self, 'image_label') and self.image_label: self.image_label.f(...)\<close>.\<close>

definition with_label :: "(image_label \<Rightarrow> image_label) \<Rightarrow> dialog \<Rightarrow> dialog" where
  "with_label f d = d\<lparr>image_label := map_option f (image_label d)\<rparr>"

definition show_notice :: "notice \<Rightarrow> dialog \<Rightarrow> dialog" where
  "show_notice n d = d\<lparr>notices := notices d @ [n]\<rparr>"

text \<open>
  A write to the dict of region \<open>i\<close>: the dict is shared by the dialog's list and the
  image view's list, so both see it.
\<close>

definition store_region :: "nat \<Rightarrow> region \<Rightarrow> dialog \<Rightarrow> dialog" where
  "store_region i r d =
     with_label (\<lambda>l. l\<lparr>label_regions := (label_regions l)[i := r]\<rparr>)
       (d\<lparr>regions := (regions d)[i := r]\<rparr>)"

text \<open>\<^verbatim>\<open>on_modify_changed\<close>, the slot of the spin box's \<^verbatim>\<open>valueChanged\<close> signal.\<close>

definition on_modify_changed :: "int \<Rightarrow> dialog \<Rightarrow> py_error option \<times> dialog" where
  "on_modify_changed v d =
     (if current_region_index d \<ge> 0 then
        (if \<not> updating_modify_status d then
           (case py_getitem (regions d) (current_region_index d) of
              Inl e \<Rightarrow> (Some e, d)
            | Inr region \<Rightarrow>
                (None,
                 (store_region (nat (current_region_index d))
                    (region\<lparr>modified_status := Some v\<rparr>) d)
                 \<lparr>regions_modified := True\<rparr>))
         else (None, d))
      else (None, d))"

text \<open>
  \<^verbatim>\<open>self.modify_spin.setValue(v)\<close>: the spin box keeps the value inside its range
  \<^verbatim>\<open>setRange(0, 2)\<close> and emits \<^verbatim>\<open>valueChanged\<close> only when the value changes.
\<close>

definition spin_setValue :: "int \<Rightarrow> dialog \<Rightarrow> py_error option \<times> dialog" where
  "spin_setValue v d =
     (let v' = max 0 (min 2 v) in
      if v' = modify_spin d then (None, d)
      else on_modify_changed v' (d\<lparr>modify_spin := v'\<rparr>))"

text \<open>
  \<^verbatim>\<open>load_region_data\<close>: the class box and the spin box are set under their flags (the
  slot of the class box returns at once while its flag is set); the labels it fills in
  are display only.
\<close>

definition load_region_data :: "region \<Rightarrow> dialog \<Rightarrow> py_error option \<times> dialog" where
  "load_region_data region d =
     (let d1 = d\<lparr>updating_class_selection := True\<rparr>;
          d2 = d1\<lparr>updating_class_selection := False\<rparr>;
          d3 = d2\<lparr>updating_modify_status := True\<rparr>
      in and_then (spin_setValue (dict_get (modified_status region) 0) d3)
           (\<lambda>d4. (None, d4\<lparr>updating_modify_status := False\<rparr>)))"

definition on_region_clicked :: "int \<Rightarrow> dialog \<Rightarrow> py_error option \<times> dialog" where
  "on_region_clicked region_index d =
     (let d1 = d\<lparr>current_region_index := region_index\<rparr> in
      if 0 \<le> region_index \<and> region_index < int (length (regions d1)) then
        and_then (load_region_data (regions d1 ! nat region_index) d1)
          (\<lambda>d2. (None, with_label (set_selected_region region_index) d2))
      else (None, d1))"

text \<open>
  \<^verbatim>\<open>on_region_unselected\<close> with \<^verbatim>\<open>clear_edit_controls\<close>: the class box's slot does
  nothing since no region is current.
\<close>

definition on_region_unselected :: "dialog \<Rightarrow> py_error option \<times> dialog" where
  "on_region_unselected d =
     (let d1 = d\<lparr>current_region_index := - 1\<rparr>;
          d2 = with_label (set_selected_region (- 1)) d1
      in spin_setValue 0 d2)"

definition go_to_previous_region :: "dialog \<Rightarrow> py_error option \<times> dialog" where
  "go_to_previous_region d =
     (if current_region_index d > 0 then
        (let new_index = current_region_index d - 1 in
         and_then (on_region_clicked new_index d)
           (\<lambda>d1. (None, with_label (focus_on_region new_index) d1)))
      else (None, d))"

definition go_to_next_region :: "dialog \<Rightarrow> py_error option \<times> dialog" where
  "go_to_next_region d =
     (if current_region_index d < int (length (regions d)) - 1 then
        (let new_index = current_region_index d + 1 in
         and_then (on_region_clicked new_index d)
           (\<lambda>d1. (None, with_label (focus_on_region new_index) d1)))
      else (None, d))"

text \<open>\<^verbatim>\<open>xs.pop(i)\<close> for an index in range: the list without its element \<open>i\<close>.\<close>

definition list_pop :: "nat \<Rightarrow> 'a list \<Rightarrow> 'a list" where
  "list_pop i xs = take i xs @ drop (Suc i) xs"

text \<open>
  \<^verbatim>\<open>delete_current_region\<close>; \<open>reply_yes\<close> is the answer to the confirmation box. The
  \<^verbatim>\<open>try\<close> block is \<open>delete_region_try\<close>; its handler reports the failure and
  swallows the exception.
\<close>

definition delete_region_try :: "dialog \<Rightarrow> py_error option \<times> dialog" where
  "delete_region_try d =
     (let d1 = d\<lparr>regions := list_pop (nat (current_region_index d)) (regions d),
                 regions_modified := True\<rparr>;
          d2 = with_label (set_image_and_regions (image_file d1) (regions d1)) d1
      in and_then
           (if regions d2 \<noteq> [] then
              (let new_index =
                     (if current_region_index d2 \<ge> int (length (regions d2))
                      then int (length (regions d2)) - 1
                      else current_region_index d2)
               in and_then (on_region_clicked new_index d2)
                    (\<lambda>d3. (None, with_label (focus_on_region new_index) d3)))
            else spin_setValue 0 (d2\<lparr>current_region_index := - 1\<rparr>))
           (\<lambda>d4. (None, show_notice DeleteSucceeded d4)))"

definition delete_current_region :: "bool \<Rightarrow> dialog \<Rightarrow> dialog" where
  "delete_current_region reply_yes d =
     (if current_region_index d < 0 \<or> current_region_index d \<ge> int (length (regions d))
      then show_notice DeleteNeedsSelection d
      else if \<not> reply_yes then d
      else (case delete_region_try d of
              (None, d') \<Rightarrow> d'
            | (Some e, d') \<Rightarrow> show_notice DeleteFailed d'))"

definition toggle_add_defect_mode :: "dialog \<Rightarrow> dialog" where
  "toggle_add_defect_mode d =
     (let d1 = d\<lparr>add_defect_mode := \<not> add_defect_mode d\<rparr> in
      with_label (set_add_defect_mode (add_defect_mode d1)) d1)"

text \<open>\<^verbatim>\<open>x / f\<close> on floats raises when \<open>f\<close> is zero.\<close>

definition py_truediv :: "real \<Rightarrow> real \<Rightarrow> py_error + real" where
  "py_truediv a b = (if b = 0 then Inl ZeroDivisionError else Inr (a / b))"

text \<open>
  The conversion at the head of \<^verbatim>\<open>add_new_defect_region\<close>: screen coordinates to image
  coordinates, \<^verbatim>\<open>int(v / self.image_label.scale_factor)\<close> for each number: the int is
  made a float, the float quotient is rounded to a double, and \<^verbatim>\<open>int()\<close> truncates it.
\<close>

definition to_original :: "image_label option \<Rightarrow> int \<Rightarrow> py_error + int" where
  "to_original lbl v =
     (case lbl of
        None \<Rightarrow> Inr v
      | Some l \<Rightarrow>
          (case float_of_int v of
             Inl e \<Rightarrow> Inl e
           | Inr f \<Rightarrow> map_sum id int_of_float (float_truediv f (scale_factor l))))"

text \<open>The dict literal \<^verbatim>\<open>new_region\<close>.\<close>

definition new_region :: "int \<Rightarrow> int \<Rightarrow> int \<Rightarrow> int \<Rightarrow> region" where
  "new_region original_x original_y original_width original_height =
     \<lparr>final_label_index = Some 1,
      region_height = Some original_height,
      imgPath = Some [],
      isSure = Some True,
      label_confidence =
        Some [mk_entry 11 1.0, mk_entry 1 1.0, mk_entry 11 1.0, mk_entry 11 1.0],
      modified_status = Some 2,
      region_width = Some original_width,
      region_x = Some original_x,
      region_y = Some original_y,
      yolo_confidence = Some 0.0\<rparr>"

definition add_region_try ::
  "int \<Rightarrow> int \<Rightarrow> int \<Rightarrow> int \<Rightarrow> dialog \<Rightarrow> py_error option \<times> dialog" where
  "add_region_try sx sy swidth sheight d =
     (case to_original (image_label d) sx of
        Inl e \<Rightarrow> (Some e, d)
      | Inr original_x \<Rightarrow>
     (case to_original (image_label d) sy of
        Inl e \<Rightarrow> (Some e, d)
      | Inr original_y \<Rightarrow>
     (case to_original (image_label d) swidth of
        Inl e \<Rightarrow> (Some e, d)
      | Inr original_width \<Rightarrow>
     (case to_original (image_label d) sheight of
        Inl e \<Rightarrow> (Some e, d)
      | Inr original_height \<Rightarrow>
        (let d1 = d\<lparr>regions :=
                       regions d @ [new_region original_x original_y original_width original_height],
                     regions_modified := True\<rparr>;
             d2 = with_label (set_image_and_regions (image_file d1) (regions d1)) d1;
             new_index = int (length (regions d2)) - 1
         in and_then (on_region_clicked new_index d2)
              (\<lambda>d3. (None,
                 show_notice AddSucceeded
                   (toggle_add_defect_mode (with_label (focus_on_region new_index) d3)))))))))"

text \<open>
  \<^verbatim>\<open>add_new_defect_region\<close>, the slot of \<^verbatim>\<open>new_region_created\<close>; the arguments are the
  rectangle in screen coordinates.
\<close>

definition add_new_defect_region :: "int \<Rightarrow> int \<Rightarrow> int \<Rightarrow> int \<Rightarrow> dialog \<Rightarrow> dialog" where
  "add_new_defect_region sx sy swidth sheight d =
     (case add_region_try sx sy swidth sheight d of
        (None, d') \<Rightarrow> d'
      | (Some e, d') \<Rightarrow> show_notice AddFailed d')"

definition quick_confirm_current_region :: "dialog \<Rightarrow> py_error option \<times> dialog" where
  "quick_confirm_current_region d =
     (if current_region_index d \<ge> 0 \<and> current_region_index d < int (length (regions d)) then
        (let region = regions d ! nat (current_region_index d) in
         and_then
           (if dict_get (modified_status region) 0 \<noteq> 2 then
              and_then
                (spin_setValue 1
                   ((store_region (nat (current_region_index d))
                       (region\<lparr>modified_status := Some 1\<rparr>) d)
                    \<lparr>regions_modified := True\<rparr>))
                (\<lambda>d1. (None, with_label update_display d1))
            else (None, d))
           (\<lambda>d2. if current_region_index d2 < int (length (regions d2)) - 1
                  then go_to_next_region d2
                  else (None, show_notice AllConfirmed d2)))
      else (None, d))"

text \<open>
  \<^verbatim>\<open>on_class_changed\<close>, the slot of the class box; \<open>new_class_id\<close> is the box's
  \<^verbatim>\<open>currentData()\<close>. The call \<^verbatim>\<open>self.image_label.update_display()\<close> is not guarded
  and raises when the dialog has no image view.
\<close>

definition on_class_changed :: "int \<Rightarrow> dialog \<Rightarrow> py_error option \<times> dialog" where
  "on_class_changed new_class_id d =
     (if current_region_index d \<ge> 0 then
        (if updating_class_selection d then (None, d)
         else
           (case py_getitem (regions d) (current_region_index d) of
              Inl e \<Rightarrow> (Some e, d)
            | Inr region \<Rightarrow>
                (let fli = dict_get (final_label_index region) 0;
                     lc = dict_get (label_confidence region) []
                 in if 0 \<le> fli \<and> fli < int (length lc) then
                      (let region1 = region\<lparr>label_confidence :=
                                 Some (lc[nat fli := (lc ! nat fli)\<lparr>label := Some new_class_id\<rparr>])\<rparr>;
                           d1 = store_region (nat (current_region_index d)) region1 d
                       in and_then
                            (if dict_get (modified_status region1) 0 \<noteq> 2 then
                               (let region2 = region1\<lparr>modified_status := Some 1\<rparr>;
                                    d2 = store_region (nat (current_region_index d)) region2 d1
                                in and_then
                                     (spin_setValue 1 (d2\<lparr>updating_modify_status := True\<rparr>))
                                     (\<lambda>d3. (None, d3\<lparr>updating_modify_status := False\<rparr>)))
                             else (None, d1))
                            (\<lambda>d4.
                               (let d5 = d4\<lparr>regions_modified := True\<rparr> in
                                case image_label d5 of
                                  None \<Rightarrow> (Some AttributeError, d5)
                                | Some l \<Rightarrow>
                                    (let d6 = d5\<lparr>image_label := Some (update_display l)\<rparr> in
                                     load_region_data
                                       (regions d6 ! nat (current_region_index d6)) d6))))
                    else (None, show_notice LabelIndexOutOfRange d))))
      else (None, d))"

subsection \<open>Zoom buttons and keys\<close>

text \<open>
  \<^verbatim>\<open>_zoom_with_center\<close>; the scroll bars it moves afterwards are widget state.
\<close>

definition zoom_with_center :: "real \<Rightarrow> dialog \<Rightarrow> dialog" where
  "zoom_with_center zoom_multiplier d =
     (case image_label d of
        None \<Rightarrow> d
      | Some l \<Rightarrow>
          if \<not> scroll_area l then d
          else d\<lparr>image_label :=
                   Some (update_display
                           (l\<lparr>zoom_factor := clamp_zoom (zoom_factor l * zoom_multiplier)\<rparr>))\<rparr>)"

definition zoom_in :: "dialog \<Rightarrow> dialog" where
  "zoom_in d = (if image_label d \<noteq> None then zoom_with_center 1.2 d else d)"

definition zoom_out :: "dialog \<Rightarrow> dialog" where
  "zoom_out d = (if image_label d \<noteq> None then zoom_with_center 0.8 d else d)"

definition zoom_reset :: "dialog \<Rightarrow> py_error option \<times> dialog" where
  "zoom_reset d =
     (case image_label d of
        None \<Rightarrow> (None, d)
      | Some l \<Rightarrow>
          if \<bar>zoom_factor l - 1.0\<bar> < 0.01 then (None, d)
          else (case py_truediv 1.0 (zoom_factor l) of
                  Inl e \<Rightarrow> (Some e, d)
                | Inr reset_multiplier \<Rightarrow> (None, zoom_with_center reset_multiplier d)))"

text \<open>
  \<^verbatim>\<open>DetailDialog.__init__\<close> for a button with the given regions. The image view is
  built by \<^verbatim>\<open>create_image_area\<close> only when the image path exists; it is put into a
  scroll area. A first region, if any, is selected and focused.
\<close>

definition create_image_area :: "dialog \<Rightarrow> dialog" where
  "create_image_area d =
     (case image_file d of
        None \<Rightarrow> d
      | Some sz \<Rightarrow>
          d\<lparr>image_label :=
              Some ((set_image_and_regions (Some sz) (regions d)
                       (ImageLabel_init\<lparr>label_regions_visible := regions_visible d\<rparr>))
                    \<lparr>scroll_area := True\<rparr>)\<rparr>)"

definition DetailDialog_init ::
  "region list \<Rightarrow> (int \<times> int) option \<Rightarrow> py_error option \<times> dialog" where
  "DetailDialog_init button_regions img =
     (let d = create_image_area
                \<lparr>regions = button_regions, current_region_index = - 1,
                 regions_modified = False, regions_visible = True,
                 add_defect_mode = False, image_label = None, image_file = img,
                 modify_spin = 0, updating_class_selection = False,
                 updating_modify_status = False, notices = [], close_called = False\<rparr>
      in if regions d \<noteq> [] then
           and_then (on_region_clicked 0 d)
             (\<lambda>d1. (None, with_label (focus_on_region 0) d1))
         else (None, d))"

section \<open>BoardView: the grid of image buttons\<close>

text \<open>\<^verbatim>\<open>str(n)\<close> for a natural number, used by the default button name.\<close>

fun py_str_nat :: "nat \<Rightarrow> string" where
  "py_str_nat n =
     (if n < 10 then [char_of (48 + n)]
      else py_str_nat (n div 10) @ [char_of (48 + n mod 10)])"

text \<open>The local function \<^verbatim>\<open>extract_number\<close> of \<^verbatim>\<open>add_buttons\<close>.\<close>

definition extract_number :: "pic_info \<Rightarrow> int" where
  "extract_number p =
     (let button_name = dict_get (connectButtonName p) [];
          parts = py_split (CHR ''_'') button_name
      in if length parts \<ge> 2 then
           (case py_int (parts ! 1) of
              Some n \<Rightarrow> n
            | None \<Rightarrow> 0)
         else 0)"

text \<open>\<^verbatim>\<open>xs.index(x)\<close> for an \<open>x\<close> that occurs in \<open>xs\<close>: the first position holding it.\<close>

definition list_index :: "'a \<Rightarrow> 'a list \<Rightarrow> nat" where
  "list_index x xs = length (takeWhile (\<lambda>y. y \<noteq> x) xs)"

text \<open>
  The list comprehension and the sort that each of the four camera branches of
  \<^verbatim>\<open>add_buttons\<close> builds: the entries of the same column and camera prefix, by number
  (Python's sort is stable, as \<open>sort_key\<close> is).
\<close>

definition pics_in_column :: "pic_info list \<Rightarrow> int \<Rightarrow> string \<Rightarrow> pic_info list" where
  "pics_in_column pic_info_list col prefix =
     sort_key extract_number
       (filter (\<lambda>p. column p = Some col \<and>
                     py_startswith (dict_get (connectButtonName p) []) prefix)
          pic_info_list)"

text \<open>
  The row computed by a camera branch on the front side and on the back side.
\<close>

definition front_row :: "pic_info list \<Rightarrow> pic_info \<Rightarrow> int \<Rightarrow> string \<Rightarrow> int" where
  "front_row pic_info_list p col prefix =
     (let pics = pics_in_column pic_info_list col prefix in
      if p \<in> set pics then
        (let index_in_column = int (list_index p pics) in
         if col \<in> set [3, 4, 7, 8] then index_in_column + 1
         else 5 - index_in_column)
      else 1)"

definition back_row :: "pic_info list \<Rightarrow> pic_info \<Rightarrow> int \<Rightarrow> string \<Rightarrow> int" where
  "back_row pic_info_list p col prefix =
     (let pics = pics_in_column pic_info_list col prefix in
      if p \<in> set pics then
        (let index_in_column = int (list_index p pics) in
         if col \<in> set [3, 4, 7, 8] then 5 - index_in_column
         else index_in_column + 1)
      else 1)"

text \<open>
  What \<^verbatim>\<open>grid_layout.addWidget(widget, row, col)\<close> has been called with: a column header
  or an image button (its name and its entry), and the cell.
\<close>

datatype widget = ColumnLabel int | ImageButton string pic_info

record cell =
  cell_widget :: widget
  cell_row :: int
  cell_col :: int

text \<open>
  One pass of the loop \<^verbatim>\<open>for pic_info in pic_info_list\<close>. The button's name defaults
  to \<^verbatim>\<open>img_N\<close> with \<open>N\<close> one more than \<^verbatim>\<open>len(self.buttons)\<close>. The local variable
  \<^verbatim>\<open>row\<close> lives across the passes: \<open>row\<close> is \<open>None\<close> while it is unbound, and a name
  with neither camera prefix leaves it as the pass before set it.
\<close>

definition button_name_of :: "pic_info \<Rightarrow> nat \<Rightarrow> string" where
  "button_name_of p n_buttons =
     dict_get (connectButtonName p) (''img_'' @ py_str_nat (n_buttons + 1))"

definition next_row ::
  "bool \<Rightarrow> pic_info list \<Rightarrow> pic_info \<Rightarrow> string \<Rightarrow> int option \<Rightarrow> int option" where
  "next_row is_front pic_info_list p button_name row =
     (let col_no = dict_get (column p) 1 in
      if is_front then
        (if py_startswith button_name ''p1_'' then
           Some (front_row pic_info_list p col_no ''p1_'')
         else if py_startswith button_name ''p2_'' then
           Some (front_row pic_info_list p col_no ''p2_'')
         else row)
      else
        (if py_startswith button_name ''p1_'' then
           Some (back_row pic_info_list p col_no ''p1_'')
         else if py_startswith button_name ''p2_'' then
           Some (back_row pic_info_list p col_no ''p2_'')
         else row))"

definition button_cell :: "pic_info \<Rightarrow> string \<Rightarrow> int \<Rightarrow> cell" where
  "button_cell p button_name r =
     \<lparr>cell_widget = ImageButton button_name p, cell_row = r,
      cell_col = dict_get (column p) 1 - 1\<rparr>"

text \<open>
  The loop: \<^verbatim>\<open>addWidget(button, row, col)\<close> raises when \<^verbatim>\<open>row\<close> is still unbound.
  The result is the exception that ended the loop, if any, and the buttons placed.
\<close>

fun place_buttons ::
  "bool \<Rightarrow> pic_info list \<Rightarrow> pic_info list \<Rightarrow> int option \<Rightarrow> nat \<Rightarrow> py_error option \<times> cell list" where
  "place_buttons is_front pic_info_list [] row n_buttons = (None, [])"
| "place_buttons is_front pic_info_list (p # ps) row n_buttons =
     (case next_row is_front pic_info_list p (button_name_of p n_buttons) row of
        None \<Rightarrow> (Some UnboundLocalError, [])
      | Some r \<Rightarrow>
          (case place_buttons is_front pic_info_list ps (Some r) (Suc n_buttons) of
             (e, cells) \<Rightarrow> (e, button_cell p (button_name_of p n_buttons) r # cells)))"

definition column_labels :: "cell list" where
  "column_labels =
     map (\<lambda>c. \<lparr>cell_widget = ColumnLabel (c + 1), cell_row = 0, cell_col = c\<rparr>) [0..<10]"

text \<open>The side of a list of entries: decided by the number of its first entry.\<close>

definition is_front_list :: "pic_info list \<Rightarrow> bool" where
  "is_front_list pic_info_list =
     (case pic_info_list of
        [] \<Rightarrow> True
      | p # _ \<Rightarrow> extract_number p \<le> 25)"

text \<open>
  \<^verbatim>\<open>BoardView.add_buttons\<close>: the grid after the call (the old buttons are cleared
  first), with the exception that escaped, if any.
\<close>

definition add_buttons :: "pic_info list \<Rightarrow> py_error option \<times> cell list" where
  "add_buttons pic_info_list =
     (if pic_info_list = [] then (None, [])
      else (case place_buttons (is_front_list pic_info_list) pic_info_list pic_info_list None 0 of
              (e, cells) \<Rightarrow> (e, column_labels @ cells)))"

section \<open>SilkLabelApp: loading and saving the document\<close>

text \<open>
  The body of the loop of \<^verbatim>\<open>process_board_data\<close> that separates the two sides, on the
  lists built so far. Both camera branches are spelled as in the source; a
  \<^verbatim>\<open>ValueError\<close> or \<^verbatim>\<open>IndexError\<close> from reading the number is passed over.
\<close>

datatype side = Front | Back

definition side_of_number :: "string \<Rightarrow> side option" where
  "side_of_number button_name =
     (case py_getitem (py_split (CHR ''_'') button_name) 1 of
        Inl e \<Rightarrow> None
      | Inr field \<Rightarrow>
          (case py_int field of
             None \<Rightarrow> None
           | Some number \<Rightarrow>
               if 1 \<le> number \<and> number \<le> 25 then Some Front
               else if 26 \<le> number \<and> number \<le> 50 then Some Back
               else None))"

definition side_of_pic :: "pic_info \<Rightarrow> side option" where
  "side_of_pic p =
     (let button_name = dict_get (connectButtonName p) [] in
      if py_startswith button_name ''p1_'' then side_of_number button_name
      else if py_startswith button_name ''p2_'' then side_of_number button_name
      else None)"

fun separate_pics ::
  "pic_info list \<Rightarrow> pic_info list \<times> pic_info list \<Rightarrow> pic_info list \<times> pic_info list" where
  "separate_pics [] (front_pics, back_pics) = (front_pics, back_pics)"
| "separate_pics (p # ps) (front_pics, back_pics) =
     (case side_of_pic p of
        Some Front \<Rightarrow> separate_pics ps (front_pics @ [p], back_pics)
      | Some Back \<Rightarrow> separate_pics ps (front_pics, back_pics @ [p])
      | None \<Rightarrow> separate_pics ps (front_pics, back_pics))"

text \<open>The local function \<^verbatim>\<open>sort_key\<close> of \<^verbatim>\<open>process_board_data\<close>.\<close>

definition camera_and_number :: "pic_info \<Rightarrow> int \<times> int" where
  "camera_and_number p =
     (let button_name = dict_get (connectButtonName p) [];
          parts = py_split (CHR ''_'') button_name
      in if length parts \<ge> 2 then
           (case py_int (drop 1 (parts ! 0)) of
              None \<Rightarrow> (0, 0)
            | Some camera \<Rightarrow>
                (case py_int (parts ! 1) of
                   None \<Rightarrow> (0, 0)
                 | Some number \<Rightarrow> (camera, number)))
         else (0, 0))"

text \<open>
  Warnings and errors \<^verbatim>\<open>process_board_data\<close> reports, and the two boards it fills.
\<close>

datatype board_notice = NoBlackboard | NoPicInfo | ProcessingError

record boards =
  front_view :: "cell list"
  back_view :: "cell list"
  board_notices :: "board_notice list"

definition process_board_data :: "document option \<Rightarrow> boards \<Rightarrow> boards" where
  "process_board_data json_data b =
     (case json_data of
        None \<Rightarrow> b
      | Some doc \<Rightarrow>
          if doc = empty_document then b
          else
            (case currentBlackboard doc of
               None \<Rightarrow> b\<lparr>board_notices := board_notices b @ [NoBlackboard]\<rparr>
             | Some board \<Rightarrow>
                 if board = empty_blackboard
                 then b\<lparr>board_notices := board_notices b @ [NoBlackboard]\<rparr>
                 else
                   (let pics = dict_get (all_pic_info board) [] in
                    if pics = [] then b\<lparr>board_notices := board_notices b @ [NoPicInfo]\<rparr>
                    else
                      (case separate_pics pics ([], []) of
                         (front_pics, back_pics) \<Rightarrow>
                           (case add_buttons (sort_key camera_and_number front_pics) of
                              (Some e, cells) \<Rightarrow>
                                b\<lparr>front_view := cells,
                                  board_notices := board_notices b @ [ProcessingError]\<rparr>
                            | (None, cells) \<Rightarrow>
                                (case add_buttons (sort_key camera_and_number back_pics) of
                                   (Some e, cells') \<Rightarrow>
                                     b\<lparr>front_view := cells, back_view := cells',
                                       board_notices := board_notices b @ [ProcessingError]\<rparr>
                                 | (None, cells') \<Rightarrow>
                                     b\<lparr>front_view := cells, back_view := cells'\<rparr>))))))"

text \<open>
  The application's fields that saving reads, and the files on disk: a path holds the
  document last written to it in full, or is left damaged by a write that failed after
  \<^verbatim>\<open>open(path, 'w')\<close> truncated it.
\<close>

record app =
  selected_file_path :: "string option"
  json_data :: "document option"

datatype disk_file = Whole document | Damaged

datatype write_outcome = WriteSucceeds | OpenFails | DumpFails

text \<open>
  \<^verbatim>\<open>save_json_data\<close>; \<open>io\<close> is how the operating system answers the write. Every failure
  leaves the method as an \<^verbatim>\<open>Exception\<close>.
\<close>

definition save_json_data ::
  "write_outcome \<Rightarrow> app \<Rightarrow> (string \<rightharpoonup> disk_file) \<Rightarrow> py_error option \<times> (string \<rightharpoonup> disk_file)" where
  "save_json_data io a files =
     (case selected_file_path a of
        None \<Rightarrow> (Some OtherException, files)
      | Some path \<Rightarrow>
          if path = [] then (Some OtherException, files)
          else
            (case json_data a of
               None \<Rightarrow> (Some OtherException, files)
             | Some doc \<Rightarrow>
                 if doc = empty_document then (Some OtherException, files)
                 else
                   (case io of
                      WriteSucceeds \<Rightarrow> (None, files(path \<mapsto> Whole doc))
                    | OpenFails \<Rightarrow> (Some OtherException, files)
                    | DumpFails \<Rightarrow> (Some OtherException, files(path \<mapsto> Damaged)))))"

text \<open>
  \<^verbatim>\<open>DetailDialog.save_changes\<close>. \<open>reply_yes\<close> is the answer to the question box,
  \<open>parent_app\<close> the application when it has a \<^verbatim>\<open>save_json_data\<close> method. The dialog's
  regions are part of the application's document (the same list objects), which the
  call only reads. The closing \<^verbatim>\<open>self.close()\<close> is recorded; what Qt does on it is
  outside the model.
\<close>

definition save_changes ::
  "bool \<Rightarrow> write_outcome \<Rightarrow> app option \<Rightarrow> (string \<rightharpoonup> disk_file) \<Rightarrow> dialog \<Rightarrow>
   dialog \<times> (string \<rightharpoonup> disk_file)" where
  "save_changes reply_yes io parent_app files d =
     (case (if regions_modified d \<and> reply_yes then
              (case parent_app of
                 None \<Rightarrow> (show_notice SaveMethodMissing d, files)
               | Some a \<Rightarrow>
                   (case save_json_data io a files of
                      (None, files') \<Rightarrow>
                        ((show_notice SaveSucceeded d)\<lparr>regions_modified := False\<rparr>, files')
                    | (Some e, files') \<Rightarrow> (show_notice SaveError d, files')))
            else (d, files))
      of (d', files') \<Rightarrow> (d'\<lparr>close_called := True\<rparr>, files'))"

section \<open>Predicates used to state the properties\<close>

definition zoom_in_range :: "real \<Rightarrow> bool" where
  "zoom_in_range z = (0.1 \<le> z \<and> z \<le> 5.0)"

text \<open>The zoom factor of the dialog's image view, if it has one.\<close>

definition dialog_zoom :: "dialog \<Rightarrow> real option" where
  "dialog_zoom d = map_option zoom_factor (image_label d)"

text \<open>
  Sample states for the worked instances: an image view of a 100 by 80 pixmap inside
  a scroll area, at zoom and scale \<open>z\<close>, and a dialog around it, both over the regions
  \<open>rs\<close>, with the region at \<open>sel\<close> current.
\<close>

definition sample_view :: "real \<Rightarrow> region list \<Rightarrow> image_label" where
  "sample_view z rs =
     ImageLabel_init\<lparr>original_pixmap := Some (100, 80), label_regions := rs,
                      scale_factor := z, zoom_factor := z, scroll_area := True\<rparr>"

definition sample_dialog :: "real \<Rightarrow> region list \<Rightarrow> int \<Rightarrow> dialog" where
  "sample_dialog z rs sel =
     \<lparr>regions = rs, current_region_index = sel, regions_modified = False,
      regions_visible = True, add_defect_mode = False,
      image_label = Some (sample_view z rs), image_file = Some (100, 80),
      modify_spin = 0, updating_class_selection = False,
      updating_modify_status = False, notices = [], close_called = False\<rparr>"

text \<open>
  The double that \<^verbatim>\<open>v / self.image_label.scale_factor\<close> evaluates to for a screen
  number \<open>v\<close>, and the condition under which \<^verbatim>\<open>int()\<close> of it returns: the scale factor
  is not zero and neither the converted int nor the quotient is beyond the doubles.
\<close>

definition screen_quotient :: "image_label \<Rightarrow> int \<Rightarrow> real" where
  "screen_quotient l v = round_to_float (round_to_float (real_of_int v) / scale_factor l)"

definition finite_quotient :: "image_label \<Rightarrow> int \<Rightarrow> bool" where
  "finite_quotient l v \<longleftrightarrow>
     scale_factor l \<noteq> 0 \<and>
     \<bar>round_to_float (real_of_int v)\<bar> < 2 ^ 1024 \<and>
     \<bar>screen_quotient l v\<bar> < 2 ^ 1024"

text \<open>
  An application holding a document and a path, and a list of two regions: one added
  by the user (status 2), one read from the file and untouched (status 0).
\<close>

definition sample_app :: app where
  "sample_app =
     \<lparr>selected_file_path = Some ''batch.json'',
      json_data = Some \<lparr>batchName = Some ''b1'', currentBlackboard = None\<rparr>\<rparr>"

definition sample_regions :: "region list" where
  "sample_regions = [new_region 1 1 5 5, (new_region 2 2 5 5)\<lparr>modified_status := Some 0\<rparr>]"

text \<open>
  The name of an entry as the board code reads it, and the two camera prefixes.
\<close>

definition pic_name :: "pic_info \<Rightarrow> string" where
  "pic_name p = dict_get (connectButtonName p) []"

definition has_camera_prefix :: "string \<Rightarrow> bool" where
  "has_camera_prefix name = (py_startswith name ''p1_'' \<or> py_startswith name ''p2_'')"

text \<open>
  The part of a name the sequence number is read from: what stands between the first
  underscore and the next one (all that follows the first underscore, when there is no
  other).
\<close>

definition number_field :: "string \<Rightarrow> string" where
  "number_field name =
     takeWhile (\<lambda>c. c \<noteq> CHR ''_'') (drop 1 (dropWhile (\<lambda>c. c \<noteq> CHR ''_'') name))"



text \<open>The entries whose buttons a grid holds, in the order they were placed.\<close>

definition button_pics :: "cell list \<Rightarrow> pic_info list" where
  "button_pics cells =
     concat (map (\<lambda>c. case cell_widget c of
                          ImageButton n p \<Rightarrow> [p]
                        | ColumnLabel k \<Rightarrow> []) cells)"

text \<open>
  The two lists \<^verbatim>\<open>process_board_data\<close> hands to the front and the back view: the
  entries of each side, sorted by camera and number.
\<close>

definition front_pics_of :: "pic_info list \<Rightarrow> pic_info list" where
  "front_pics_of pics =
     sort_key camera_and_number (filter (\<lambda>p. side_of_pic p = Some Front) pics)"

definition back_pics_of :: "pic_info list \<Rightarrow> pic_info list" where
  "back_pics_of pics =
     sort_key camera_and_number (filter (\<lambda>p. side_of_pic p = Some Back) pics)"

text \<open>The row a camera branch of \<^verbatim>\<open>add_buttons\<close> computes for an entry of a camera.\<close>

definition placed_row :: "bool \<Rightarrow> pic_info list \<Rightarrow> pic_info \<Rightarrow> int" where
  "placed_row is_front pic_info_list p =
     (if is_front then front_row pic_info_list p (dict_get (column p) 1) (take 3 (pic_name p))
      else back_row pic_info_list p (dict_get (column p) 1) (take 3 (pic_name p)))"

text \<open>
  The layout rule in the words of the specification. The position of an entry in its
  column is its 0-based place among the entries of the same camera and the same column,
  sorted by sequence number. On the front side the columns 1, 2, 5, 6, 9, 10 run from
  the bottom up (row 5 minus position) and the columns 3, 4, 7, 8 from the top down
  (position plus 1); on the back side the two groups change roles. The rule speaks of
  the columns 1 to 10 only. The side of a list is the side \<^verbatim>\<open>add_buttons\<close> takes for it.
\<close>

definition position_in_column :: "pic_info list \<Rightarrow> pic_info \<Rightarrow> nat" where
  "position_in_column pics p =
     list_index p
       (sort_key extract_number
          (filter (\<lambda>q. column q = column p \<and> take 3 (pic_name q) = take 3 (pic_name p)) pics))"

definition serpentine_row :: "side \<Rightarrow> int \<Rightarrow> nat \<Rightarrow> int option" where
  "serpentine_row sd col k =
     (if col \<in> {1, 2, 5, 6, 9, 10} then
        Some (case sd of Front \<Rightarrow> 5 - int k | Back \<Rightarrow> int k + 1)
      else if col \<in> {3, 4, 7, 8} then
        Some (case sd of Front \<Rightarrow> int k + 1 | Back \<Rightarrow> 5 - int k)
      else None)"

definition side_of_list :: "pic_info list \<Rightarrow> side" where
  "side_of_list pics = (if is_front_list pics then Front else Back)"

text \<open>
  Sample entries: a front board with five images of camera 1 in column 1 and five in
  column 3, and a document with one well-formed name and three names that are not.
\<close>

definition sample_pic :: "string \<Rightarrow> int \<Rightarrow> pic_info" where
  "sample_pic name col =
     \<lparr>connectButtonName = Some name, column = Some col, pic_index = None,
      pic_imgPath = None, pic_regions = None\<rparr>"

definition sample_front :: "pic_info list" where
  "sample_front =
     [sample_pic ''p1_1'' 1, sample_pic ''p1_2'' 1, sample_pic ''p1_3'' 1,
      sample_pic ''p1_4'' 1, sample_pic ''p1_5'' 1,
      sample_pic ''p1_11'' 3, sample_pic ''p1_12'' 3, sample_pic ''p1_13'' 3,
      sample_pic ''p1_14'' 3, sample_pic ''p1_15'' 3]"




section \<open>Properties\<close>

lemma py_getitem_in_range:
  "0 \<le> i \<Longrightarrow> i < int (length xs) \<Longrightarrow> py_getitem xs i = Inr (xs ! nat i)"
  by (simp add: py_getitem_def)

lemma py_getitem_first: "xs \<noteq> [] \<Longrightarrow> py_getitem xs 0 = Inr (xs ! 0)"
  by (simp add: py_getitem_def)

text \<open>
  C1. The label resolver never raises and follows the resolution rule: with
  \<open>i\<close> the region's \<open>final_label_index\<close> (0 when the key is absent) and \<open>lc\<close> its
  \<open>label_confidence\<close> (empty when absent), it returns the label of \<open>lc[i]\<close> when
  \<open>0 \<le> i < len(lc)\<close>, else the label of \<open>lc[0]\<close> when \<open>lc\<close> is not empty, else 11.
  This holds for every \<open>i\<close> (negative or too large included) and every \<open>lc\<close>. The label
  of an entry is its \<open>label\<close> key, read with default 11.
\<close>

theorem get_region_class_id_rule:
  assumes "i = dict_get (final_label_index r) 0"
    and "lc = dict_get (label_confidence r) []"
  shows "(\<exists>c. get_region_class_id r = Inr c) \<and>
         (0 \<le> i \<and> i < int (length lc) \<longrightarrow>
            get_region_class_id r = Inr (entry_label (lc ! nat i))) \<and>
         (\<not> (0 \<le> i \<and> i < int (length lc)) \<and> lc \<noteq> [] \<longrightarrow>
            get_region_class_id r = Inr (entry_label (lc ! 0))) \<and>
         (\<not> (0 \<le> i \<and> i < int (length lc)) \<and> lc = [] \<longrightarrow>
            get_region_class_id r = Inr 11)"
  using assms
  by (auto simp: get_region_class_id_def get_region_class_id_try_def Let_def
      py_getitem_in_range py_getitem_first)

text \<open>
  The rule at three regions: index 1 of two candidates, index 7 of two candidates
  (out of range, first candidate taken), and index \<open>-1\<close> with no candidate at all.
\<close>

theorem get_region_class_id_rule_witness:
  "get_region_class_id
     (empty_region\<lparr>final_label_index := Some 1,
                   label_confidence := Some [mk_entry 3 1, mk_entry 7 1]\<rparr>) = Inr 7 \<and>
   get_region_class_id
     (empty_region\<lparr>final_label_index := Some 7,
                   label_confidence := Some [mk_entry 3 1, mk_entry 7 1]\<rparr>) = Inr 3 \<and>
   get_region_class_id
     (empty_region\<lparr>final_label_index := Some (- 1), label_confidence := Some []\<rparr>) = Inr 11"
proof -
  have a: "get_region_class_id
     (empty_region\<lparr>final_label_index := Some 1,
                   label_confidence := Some [mk_entry 3 1, mk_entry 7 1]\<rparr>) = Inr 7"
    using get_region_class_id_rule [of 1
        "empty_region\<lparr>final_label_index := Some 1,
                      label_confidence := Some [mk_entry 3 1, mk_entry 7 1]\<rparr>"
        "[mk_entry 3 1, mk_entry 7 1]"]
    by (simp add: empty_region_def dict_get_def entry_label_def mk_entry_def)
  have b: "get_region_class_id
     (empty_region\<lparr>final_label_index := Some 7,
                   label_confidence := Some [mk_entry 3 1, mk_entry 7 1]\<rparr>) = Inr 3"
    using get_region_class_id_rule [of 7
        "empty_region\<lparr>final_label_index := Some 7,
                      label_confidence := Some [mk_entry 3 1, mk_entry 7 1]\<rparr>"
        "[mk_entry 3 1, mk_entry 7 1]"]
    by (simp add: empty_region_def dict_get_def entry_label_def mk_entry_def)
  have c: "get_region_class_id
     (empty_region\<lparr>final_label_index := Some (- 1), label_confidence := Some []\<rparr>) = Inr 11"
    using get_region_class_id_rule [of "- 1"
        "empty_region\<lparr>final_label_index := Some (- 1), label_confidence := Some []\<rparr>" "[]"]
    by (simp add: empty_region_def dict_get_def)
  from a b c show ?thesis by simp
qed

subsection \<open>Zoom\<close>

lemma clamp_zoom_in_range: "zoom_in_range (clamp_zoom z)"
  by (simp add: clamp_zoom_def zoom_in_range_def)

lemma update_display_zoom_factor [simp]: "zoom_factor (update_display l) = zoom_factor l"
  by (simp add: update_display_def Let_def split: option.splits prod.splits)

lemma update_display_original_pixmap [simp]:
  "original_pixmap (update_display l) = original_pixmap l"
  by (simp add: update_display_def Let_def split: option.splits prod.splits)

lemma update_display_scroll_area [simp]: "scroll_area (update_display l) = scroll_area l"
  by (simp add: update_display_def Let_def split: option.splits prod.splits)

lemma wheelEvent_in_range:
  "zoom_in_range (zoom_factor l) \<Longrightarrow> zoom_in_range (zoom_factor (wheelEvent delta l))"
  using clamp_zoom_in_range by (simp add: wheelEvent_def Let_def)

lemma wheelEvent_applies:
  "original_pixmap l \<noteq> None \<Longrightarrow> scroll_area l \<Longrightarrow>
   zoom_factor (wheelEvent delta l) =
     clamp_zoom (zoom_factor l * (if 0 < delta then 1.1 else 0.9))"
  by (simp add: wheelEvent_def Let_def)

lemma key_zoom_fallback_in_range:
  "zoom_in_range (zoom_factor l) \<Longrightarrow> zoom_in_range (zoom_factor (key_zoom_fallback k l))"
  by (cases k) (auto simp add: key_zoom_fallback_def zoom_in_range_def)

lemma focus_on_region_in_range:
  "zoom_in_range (zoom_factor l) \<Longrightarrow> zoom_in_range (zoom_factor (focus_on_region i l))"
  by (simp add: focus_on_region_def zoom_in_range_def)

lemma zoom_with_center_in_range:
  assumes "image_label d = Some l" and "zoom_in_range (zoom_factor l)"
  shows "\<exists>z. dialog_zoom (zoom_with_center m d) = Some z \<and> zoom_in_range z"
  using assms clamp_zoom_in_range by (simp add: zoom_with_center_def dialog_zoom_def)

lemma zoom_with_center_applies:
  "image_label d = Some l \<Longrightarrow> scroll_area l \<Longrightarrow>
   dialog_zoom (zoom_with_center m d) = Some (clamp_zoom (zoom_factor l * m))"
  by (simp add: zoom_with_center_def dialog_zoom_def)

lemma zoom_reset_in_range:
  assumes "image_label d = Some l" and "zoom_in_range (zoom_factor l)"
  shows "\<exists>d' z. zoom_reset d = (None, d') \<and> dialog_zoom d' = Some z \<and> zoom_in_range z"
proof (cases "\<bar>zoom_factor l - 1.0\<bar> < 0.01")
  case True
  with assms show ?thesis by (simp add: zoom_reset_def dialog_zoom_def)
next
  case False
  from assms(2) have "zoom_factor l \<noteq> 0" by (auto simp: zoom_in_range_def)
  with False assms(1) have
    "zoom_reset d = (None, zoom_with_center (1.0 / zoom_factor l) d)"
    by (simp add: zoom_reset_def py_truediv_def)
  with zoom_with_center_in_range [OF assms] show ?thesis by simp
qed

lemma wheelEvent_up_at_top:
  "zoom_factor l = 5 \<Longrightarrow> 0 < delta \<Longrightarrow> zoom_factor ((wheelEvent delta ^^ n) l) = 5"
proof (induction n)
  case 0
  then show ?case by simp
next
  case (Suc n)
  then show ?case by (simp add: wheelEvent_def Let_def clamp_zoom_def)
qed

lemma wheelEvent_down_at_bottom:
  "zoom_factor l = 0.1 \<Longrightarrow> delta \<le> 0 \<Longrightarrow> zoom_factor ((wheelEvent delta ^^ n) l) = 0.1"
proof (induction n)
  case 0
  then show ?case by simp
next
  case (Suc n)
  then show ?case by (simp add: wheelEvent_def Let_def clamp_zoom_def)
qed

lemma zoom_in_at_top: "dialog_zoom d = Some 5 \<Longrightarrow> dialog_zoom ((zoom_in ^^ n) d) = Some 5"
proof (induction n)
  case 0
  then show ?case by simp
next
  case (Suc n)
  then show ?case
    by (auto simp: dialog_zoom_def zoom_in_def zoom_with_center_def clamp_zoom_def)
qed

lemma zoom_out_at_bottom:
  "dialog_zoom d = Some 0.1 \<Longrightarrow> dialog_zoom ((zoom_out ^^ n) d) = Some 0.1"
proof (induction n)
  case 0
  then show ?case by simp
next
  case (Suc n)
  then show ?case
    by (auto simp: dialog_zoom_def zoom_out_def zoom_with_center_def clamp_zoom_def)
qed

text \<open>
  C6. The zoom factor stays within [0.1, 5.0]: for a dialog \<open>d\<close> whose image view \<open>l\<close> has
  a zoom factor in that range, a wheel step, the fallback zoom keys, focusing a region,
  the centred zoom with any multiplier \<open>m\<close>, zoom-in, zoom-out and reset all leave a
  zoom factor in the range. No request is turned down: reset raises nothing, and where
  the view has a pixmap and a scroll area the wheel and the centred zoom store the
  requested factor, clamped. Repeating zoom-in (button or wheel) from 5.0 stays at 5.0,
  and repeating zoom-out from 0.1 stays at 0.1.
\<close>

theorem zoom_factor_clamped:
  assumes "image_label d = Some l" and "zoom_in_range (zoom_factor l)"
  shows
    "zoom_in_range (zoom_factor (wheelEvent delta l)) \<and>
     zoom_in_range (zoom_factor (key_zoom_fallback k l)) \<and>
     zoom_in_range (zoom_factor (focus_on_region i l)) \<and>
     (\<exists>z. dialog_zoom (zoom_with_center m d) = Some z \<and> zoom_in_range z) \<and>
     (\<exists>z. dialog_zoom (zoom_in d) = Some z \<and> zoom_in_range z) \<and>
     (\<exists>z. dialog_zoom (zoom_out d) = Some z \<and> zoom_in_range z) \<and>
     (\<exists>d' z. zoom_reset d = (None, d') \<and> dialog_zoom d' = Some z \<and> zoom_in_range z) \<and>
     (original_pixmap l \<noteq> None \<and> scroll_area l \<longrightarrow>
        zoom_factor (wheelEvent delta l) =
          clamp_zoom (zoom_factor l * (if 0 < delta then 1.1 else 0.9))) \<and>
     (scroll_area l \<longrightarrow>
        dialog_zoom (zoom_with_center m d) = Some (clamp_zoom (zoom_factor l * m))) \<and>
     (zoom_factor l = 5 \<longrightarrow>
        dialog_zoom ((zoom_in ^^ n) d) = Some 5 \<and>
        (0 < delta \<longrightarrow> zoom_factor ((wheelEvent delta ^^ n) l) = 5)) \<and>
     (zoom_factor l = 0.1 \<longrightarrow>
        dialog_zoom ((zoom_out ^^ n) d) = Some 0.1 \<and>
        (delta \<le> 0 \<longrightarrow> zoom_factor ((wheelEvent delta ^^ n) l) = 0.1))"
proof -
  have in_d: "\<exists>z. dialog_zoom (zoom_in d) = Some z \<and> zoom_in_range z"
    using assms zoom_with_center_in_range [OF assms, of "1.2"] by (simp add: zoom_in_def)
  have out_d: "\<exists>z. dialog_zoom (zoom_out d) = Some z \<and> zoom_in_range z"
    using assms zoom_with_center_in_range [OF assms, of "0.8"] by (simp add: zoom_out_def)
  have dz: "dialog_zoom d = Some (zoom_factor l)"
    using assms(1) by (simp add: dialog_zoom_def)
  show ?thesis
    using assms in_d out_d dz
      wheelEvent_in_range key_zoom_fallback_in_range focus_on_region_in_range
      zoom_with_center_in_range [OF assms] zoom_reset_in_range [OF assms]
      wheelEvent_applies zoom_with_center_applies
      zoom_in_at_top zoom_out_at_bottom wheelEvent_up_at_top wheelEvent_down_at_bottom
    by simp
qed

text \<open>
  The view at zoom 5.0 and at zoom 0.1: a wheel step up from 5.0 gives 5.0, a centred
  zoom by 3 gives 5.0, three zoom-ins and three wheel steps up stay at 5.0, three
  zoom-outs and three wheel steps down from 0.1 stay at 0.1.
\<close>

theorem zoom_factor_clamped_witness:
  "zoom_in_range (zoom_factor (wheelEvent 120 (sample_view 5 []))) \<and>
   zoom_factor (wheelEvent 120 (sample_view 5 [])) = 5 \<and>
   dialog_zoom (zoom_with_center 3 (sample_dialog 5 [] (- 1))) = Some 5 \<and>
   dialog_zoom ((zoom_in ^^ 3) (sample_dialog 5 [] (- 1))) = Some 5 \<and>
   zoom_factor ((wheelEvent 120 ^^ 3) (sample_view 5 [])) = 5 \<and>
   dialog_zoom ((zoom_out ^^ 3) (sample_dialog 0.1 [] (- 1))) = Some 0.1 \<and>
   zoom_factor ((wheelEvent (- 120) ^^ 3) (sample_view 0.1 [])) = 0.1"
proof -
  have top: "image_label (sample_dialog 5 [] (- 1)) = Some (sample_view 5 [])"
    "zoom_in_range (zoom_factor (sample_view 5 []))"
    "zoom_factor (sample_view 5 []) = 5"
    "original_pixmap (sample_view 5 []) \<noteq> None" "scroll_area (sample_view 5 [])"
    by (simp_all add: sample_dialog_def sample_view_def ImageLabel_init_def zoom_in_range_def)
  have bot: "image_label (sample_dialog 0.1 [] (- 1)) = Some (sample_view 0.1 [])"
    "zoom_in_range (zoom_factor (sample_view 0.1 []))"
    "zoom_factor (sample_view 0.1 []) = 0.1"
    by (simp_all add: sample_dialog_def sample_view_def ImageLabel_init_def zoom_in_range_def)
  from zoom_factor_clamped [OF top(1) top(2), where delta = 120 and m = 3 and n = 3]
    zoom_factor_clamped [OF bot(1) bot(2), where delta = "- 120" and n = 3]
    top bot
  show ?thesis by (simp add: clamp_zoom_def)
qed

subsection \<open>Hit-testing\<close>

lemma find_clicked_region_None:
  "find_clicked_region sf p i rs = None \<longleftrightarrow> (\<forall>r \<in> set rs. \<not> region_hit sf p r)"
  by (induction rs arbitrary: i) auto

lemma find_clicked_region_first:
  "j < length rs \<Longrightarrow> region_hit sf p (rs ! j) \<Longrightarrow>
   (\<forall>j' < j. \<not> region_hit sf p (rs ! j')) \<Longrightarrow>
   find_clicked_region sf p i rs = Some (i + j)"
proof (induction rs arbitrary: i j)
  case Nil
  then show ?case by simp
next
  case (Cons r rs)
  show ?case
  proof (cases j)
    case 0
    with Cons.prems show ?thesis by simp
  next
    case (Suc j')
    from Cons.prems(3) Suc have nohit: "\<not> region_hit sf p r" by auto
    from Cons.prems Suc have "j' < length rs" "region_hit sf p (rs ! j')" by auto
    moreover from Cons.prems(3) Suc have "\<forall>k < j'. \<not> region_hit sf p (rs ! k)" by auto
    ultimately have "find_clicked_region sf p (Suc i) rs = Some (Suc i + j')"
      by (rule Cons.IH)
    with nohit Suc show ?thesis by simp
  qed
qed

lemma find_clicked_region_Some:
  "find_clicked_region sf p i rs = Some k \<Longrightarrow>
   \<exists>j. k = i + j \<and> j < length rs \<and> region_hit sf p (rs ! j) \<and>
       (\<forall>j' < j. \<not> region_hit sf p (rs ! j'))"
proof (induction rs arbitrary: i)
  case Nil
  then show ?case by simp
next
  case (Cons r rs)
  show ?case
  proof (cases "region_hit sf p r")
    case True
    with Cons.prems have "k = i" by simp
    with True show ?thesis by (intro exI [of _ 0]) simp
  next
    case False
    with Cons.prems have "find_clicked_region sf p (Suc i) rs = Some k" by simp
    from Cons.IH [OF this] obtain j where j: "k = Suc i + j" "j < length rs"
      "region_hit sf p (rs ! j)" "\<forall>j' < j. \<not> region_hit sf p (rs ! j')" by blast
    have "\<forall>j' < Suc j. \<not> region_hit sf p ((r # rs) ! j')"
      using False j(4) by (auto simp: nth_Cons split: nat.splits)
    with j show ?thesis by (intro exI [of _ "Suc j"]) simp
  qed
qed

text \<open>
  C7. A click (left button released while not panning) emits exactly one signal, found
  by testing the regions in list order: it is \<open>region_clicked i\<close> exactly when \<open>i\<close> is
  the first index whose scaled box, borders included, contains the point; it is
  \<open>region_unselected\<close> exactly when no region contains the point (an empty list
  included). So of two regions \<open>a < b\<close> that both contain the point, \<open>b\<close> is never the
  answer: the index emitted is at most \<open>a\<close>.
\<close>

theorem click_select_first_hit:
  "(\<not> panning l \<longrightarrow>
      mouseReleaseEvent LeftButton p rect l = (l, [click_select l p])) \<and>
   (click_select l p = region_clicked i \<longleftrightarrow>
      (\<exists>k. i = int k \<and> k < length (label_regions l) \<and>
           region_hit (scale_factor l) p (label_regions l ! k) \<and>
           (\<forall>j < k. \<not> region_hit (scale_factor l) p (label_regions l ! j)))) \<and>
   (click_select l p = region_unselected \<longleftrightarrow>
      (\<forall>r \<in> set (label_regions l). \<not> region_hit (scale_factor l) p r)) \<and>
   (\<forall>a b. a < b \<and> b < length (label_regions l) \<and>
      region_hit (scale_factor l) p (label_regions l ! a) \<and>
      region_hit (scale_factor l) p (label_regions l ! b) \<longrightarrow>
      (\<exists>k \<le> a. click_select l p = region_clicked (int k)))"
proof (intro conjI allI impI)
  assume "\<not> panning l"
  then show "mouseReleaseEvent LeftButton p rect l = (l, [click_select l p])"
    by (simp add: mouseReleaseEvent_def)
next
  show "click_select l p = region_clicked i \<longleftrightarrow>
      (\<exists>k. i = int k \<and> k < length (label_regions l) \<and>
           region_hit (scale_factor l) p (label_regions l ! k) \<and>
           (\<forall>j < k. \<not> region_hit (scale_factor l) p (label_regions l ! j)))"
  proof
    assume "click_select l p = region_clicked i"
    then obtain k where
      "find_clicked_region (scale_factor l) p 0 (label_regions l) = Some k" "i = int k"
      by (auto simp: click_select_def split: if_splits option.splits)
    with find_clicked_region_Some [of "scale_factor l" p 0 "label_regions l" k]
    show "\<exists>k. i = int k \<and> k < length (label_regions l) \<and>
           region_hit (scale_factor l) p (label_regions l ! k) \<and>
           (\<forall>j < k. \<not> region_hit (scale_factor l) p (label_regions l ! j))" by auto
  next
    assume "\<exists>k. i = int k \<and> k < length (label_regions l) \<and>
           region_hit (scale_factor l) p (label_regions l ! k) \<and>
           (\<forall>j < k. \<not> region_hit (scale_factor l) p (label_regions l ! j))"
    then obtain k where k: "i = int k" "k < length (label_regions l)"
           "region_hit (scale_factor l) p (label_regions l ! k)"
           "\<forall>j < k. \<not> region_hit (scale_factor l) p (label_regions l ! j)" by blast
    from find_clicked_region_first [OF k(2) k(3) k(4), of 0] k(1) k(2)
    show "click_select l p = region_clicked i"
      by (auto simp: click_select_def)
  qed
next
  show "click_select l p = region_unselected \<longleftrightarrow>
      (\<forall>r \<in> set (label_regions l). \<not> region_hit (scale_factor l) p r)"
    using find_clicked_region_None [of "scale_factor l" p 0 "label_regions l"]
    by (auto simp: click_select_def split: option.splits)
next
  fix a b
  assume ab: "a < b \<and> b < length (label_regions l) \<and>
      region_hit (scale_factor l) p (label_regions l ! a) \<and>
      region_hit (scale_factor l) p (label_regions l ! b)"
  then have "label_regions l ! a \<in> set (label_regions l)" by simp
  with ab have "find_clicked_region (scale_factor l) p 0 (label_regions l) \<noteq> None"
    using find_clicked_region_None [of "scale_factor l" p 0 "label_regions l"] by blast
  then obtain k where
    fk: "find_clicked_region (scale_factor l) p 0 (label_regions l) = Some k" by auto
  from find_clicked_region_Some [OF this]
  have "\<forall>j' < k. \<not> region_hit (scale_factor l) p (label_regions l ! j')" by auto
  with ab have "k \<le> a" by (meson not_le_imp_less)
  moreover from fk ab have "click_select l p = region_clicked (int k)"
    by (auto simp: click_select_def)
  ultimately show "\<exists>k \<le> a. click_select l p = region_clicked (int k)" by blast
qed

text \<open>
  Two overlapping regions at scale 2: a click inside both selects index 0, a click
  inside the second only selects index 1, a click outside both, or on a view without
  regions, unselects.
\<close>

lemma sample_region_hits:
  "region_hit 2 (60, 60) (new_region 10 10 50 50)"
  "region_hit 2 (60, 60) (new_region 20 20 50 50)"
  "\<not> region_hit 2 (130, 130) (new_region 10 10 50 50)"
  "region_hit 2 (130, 130) (new_region 20 20 50 50)"
  "\<not> region_hit 2 (500, 500) (new_region 10 10 50 50)"
  "\<not> region_hit 2 (500, 500) (new_region 20 20 50 50)"
  by (simp_all add: region_hit_def new_region_def dict_get_def int_of_float_def)

theorem click_select_first_hit_witness:
  "click_select (sample_view 2 [new_region 10 10 50 50, new_region 20 20 50 50]) (60, 60)
     = region_clicked 0 \<and>
   click_select (sample_view 2 [new_region 10 10 50 50, new_region 20 20 50 50]) (130, 130)
     = region_clicked 1 \<and>
   click_select (sample_view 2 [new_region 10 10 50 50, new_region 20 20 50 50]) (500, 500)
     = region_unselected \<and>
   click_select (sample_view 2 []) (60, 60) = region_unselected \<and>
   mouseReleaseEvent LeftButton (60, 60) (0, 0, 0, 0)
       (sample_view 2 [new_region 10 10 50 50, new_region 20 20 50 50])
     = (sample_view 2 [new_region 10 10 50 50, new_region 20 20 50 50], [region_clicked 0])"
proof -
  let ?l = "sample_view 2 [new_region 10 10 50 50, new_region 20 20 50 50]"
  have l: "label_regions ?l = [new_region 10 10 50 50, new_region 20 20 50 50]"
    "scale_factor ?l = 2" "\<not> panning ?l" "label_regions (sample_view 2 []) = []"
    by (simp_all add: sample_view_def ImageLabel_init_def)
  have a: "click_select ?l (60, 60) = region_clicked 0"
    using click_select_first_hit [of ?l "(60, 60)" "(0, 0, 0, 0)" 0] l sample_region_hits
    by simp
  have b: "click_select ?l (130, 130) = region_clicked 1"
    using click_select_first_hit [of ?l "(130, 130)" "(0, 0, 0, 0)" 1] l sample_region_hits
    by (simp add: less_Suc_eq)
  have c: "click_select ?l (500, 500) = region_unselected"
    using click_select_first_hit [of ?l "(500, 500)" "(0, 0, 0, 0)" 0] l sample_region_hits
    by simp
  have d: "click_select (sample_view 2 []) (60, 60) = region_unselected"
    using click_select_first_hit [of "sample_view 2 []" "(60, 60)" "(0, 0, 0, 0)" 0] l
    by simp
  have e: "mouseReleaseEvent LeftButton (60, 60) (0, 0, 0, 0) ?l = (?l, [click_select ?l (60, 60)])"
    using click_select_first_hit [of ?l "(60, 60)" "(0, 0, 0, 0)" 0] l by blast
  from a b c d e show ?thesis by simp
qed

subsection \<open>The class catalog\<close>

lemma load_line_not_missing: "load_line raw classes \<noteq> Inl FileNotFoundError"
  by (auto simp: load_line_def Let_def split: list.splits option.splits)

lemma load_lines_not_missing: "load_lines ls classes \<noteq> Inl FileNotFoundError"
proof (induction ls arbitrary: classes)
  case Nil
  then show ?case by simp
next
  case (Cons l ls)
  then show ?case
    by (auto split: sum.splits simp: load_line_not_missing)
qed

lemma dom_default_classes: "dom default_classes = {0..11}"
proof -
  have "{0..11::int} = {0,1,2,3,4,5,6,7,8,9,10,11}"
    by (rule set_eqI) (simp, arith)
  then show ?thesis
    by (simp add: default_classes_def dom_map_of_conv_image_fst insert_commute)
qed

lemma dom_error_classes: "dom error_classes = {1, 11}"
  by (auto simp add: error_classes_def)

text \<open>
  C8, as amended. When the catalog file is absent, loading gives the built-in catalog of
  12 classes with ids 0 to 11 (10 is cleanliness, 11 is non-defect). When the file is
  there and reading or parsing it raises anything else, loading gives the catalog of two
  classes, 1 (defect) and 11 (non-defect). When nothing is raised the catalog is the one
  parsed.
\<close>

theorem load_classes_fallbacks:
  "load_classes NoSuchFile classes = default_classes \<and>
   dom default_classes = {0..11} \<and>
   default_classes 10 = Some name_cleanliness \<and>
   default_classes 11 = Some name_non_defect \<and>
   (f \<noteq> NoSuchFile \<and> load_classes_try f classes = Inl e \<longrightarrow>
      load_classes f classes = error_classes) \<and>
   (load_classes_try f classes = Inr classes' \<longrightarrow> load_classes f classes = classes') \<and>
   dom error_classes = {1, 11} \<and>
   error_classes 1 = Some name_defect \<and> error_classes 11 = Some name_non_defect"
proof -
  have "load_classes f classes = error_classes"
    if "f \<noteq> NoSuchFile" and "load_classes_try f classes = Inl e"
  proof -
    from that have "e \<noteq> FileNotFoundError"
      using load_lines_not_missing
      by (cases f) (auto simp: load_classes_try_def split: sum.splits)
    with that(2) show ?thesis by (simp add: load_classes_def)
  qed
  then show ?thesis
    using dom_default_classes dom_error_classes
    by (simp add: load_classes_def load_classes_try_def default_classes_def error_classes_def)
qed

lemma load_classes_try_bad_line: "load_classes_try (FileLines [''x,y'']) Map.empty = Inl ValueError"
  by (simp add: load_classes_try_def load_line_def
        py_strip_def strip_by_def py_isspace_def py_split1_def py_int_def py_unsigned_def
        is_digit_def)

text \<open>
  C8 as stated fails: the one-line file \<^verbatim>\<open>x,y\<close> does not parse (\<^verbatim>\<open>int('x')\<close> raises
  \<^verbatim>\<open>ValueError\<close>), and the catalog loaded has no class 0, which the built-in catalog
  of 12 classes has.
\<close>

theorem load_classes_parse_failure_counterexample:
  "load_classes_try (FileLines [''x,y'']) Map.empty = Inl ValueError \<and>
   load_classes (FileLines [''x,y'']) Map.empty 0 = None \<and>
   default_classes 0 = Some name_waste_silk"
  using load_classes_try_bad_line 
  by (simp add: load_classes_def error_classes_def default_classes_def)

text \<open>
  The amended claim at the file \<^verbatim>\<open>x,y\<close> (two-class catalog) and at a file of two
  well-formed lines (the catalog parsed).
\<close>

theorem load_classes_fallbacks_witness:
  "load_classes (FileLines [''x,y'']) Map.empty = error_classes \<and>
   load_classes (FileLines [''1,'' @ [CHR 0x22] @ ''a'' @ [CHR 0x22], ''2,b'']) Map.empty = [1 \<mapsto> ''a'', 2 \<mapsto> ''b'']"
  using load_classes_fallbacks [of Map.empty "FileLines [''x,y'']" ValueError] load_classes_try_bad_line
    load_classes_fallbacks [of Map.empty "FileLines [''1,'' @ [CHR 0x22] @ ''a'' @ [CHR 0x22], ''2,b'']" _ "[1 \<mapsto> ''a'', 2 \<mapsto> ''b'']"]
  by (simp add: load_classes_try_def load_line_def
        py_strip_def strip_by_def py_isspace_def py_split1_def py_int_def py_unsigned_def
        is_digit_def digit_val_def py_strip_chars_def)


subsection \<open>The dialog: what the handlers leave unchanged\<close>

lemma with_label_simps [simp]:
  "regions (with_label f d) = regions d"
  "current_region_index (with_label f d) = current_region_index d"
  "regions_modified (with_label f d) = regions_modified d"
  "modify_spin (with_label f d) = modify_spin d"
  "updating_modify_status (with_label f d) = updating_modify_status d"
  "updating_class_selection (with_label f d) = updating_class_selection d"
  "notices (with_label f d) = notices d"
  "add_defect_mode (with_label f d) = add_defect_mode d"
  "image_file (with_label f d) = image_file d"
  "close_called (with_label f d) = close_called d"
  "image_label (with_label f d) = map_option f (image_label d)"
  by (simp_all add: with_label_def)

lemma show_notice_simps [simp]:
  "regions (show_notice n d) = regions d"
  "current_region_index (show_notice n d) = current_region_index d"
  "regions_modified (show_notice n d) = regions_modified d"
  "notices (show_notice n d) = notices d @ [n]"
  "image_label (show_notice n d) = image_label d"
  "add_defect_mode (show_notice n d) = add_defect_mode d"
  by (simp_all add: show_notice_def)

lemma on_modify_changed_quiet:
  "updating_modify_status d \<Longrightarrow> on_modify_changed v d = (None, d)"
  by (simp add: on_modify_changed_def)

lemma on_modify_changed_unselected:
  "current_region_index d < 0 \<Longrightarrow> on_modify_changed v d = (None, d)"
  by (simp add: on_modify_changed_def)

lemma spin_setValue_quiet:
  "updating_modify_status d \<or> current_region_index d < 0 \<Longrightarrow>
   spin_setValue v d = (None, d\<lparr>modify_spin := max 0 (min 2 v)\<rparr>)"
  by (auto simp add: spin_setValue_def Let_def on_modify_changed_def)

lemma load_region_data_eq:
  "load_region_data r d =
     (None, d\<lparr>updating_class_selection := False,
              modify_spin := max 0 (min 2 (dict_get (modified_status r) 0)),
              updating_modify_status := False\<rparr>)"
  by (simp add: load_region_data_def Let_def spin_setValue_quiet and_then_def)

lemma on_region_clicked_eq:
  "on_region_clicked idx d =
     (None,
      if 0 \<le> idx \<and> idx < int (length (regions d)) then
        with_label (set_selected_region idx)
          (d\<lparr>current_region_index := idx, updating_class_selection := False,
             modify_spin := max 0 (min 2 (dict_get (modified_status (regions d ! nat idx)) 0)),
             updating_modify_status := False\<rparr>)
      else d\<lparr>current_region_index := idx\<rparr>)"
  by (simp add: on_region_clicked_def Let_def load_region_data_eq and_then_def)

lemma on_region_clicked_frame:
  "fst (on_region_clicked idx d) = None"
  "regions (snd (on_region_clicked idx d)) = regions d"
  "current_region_index (snd (on_region_clicked idx d)) = idx"
  "regions_modified (snd (on_region_clicked idx d)) = regions_modified d"
  "notices (snd (on_region_clicked idx d)) = notices d"
  "add_defect_mode (snd (on_region_clicked idx d)) = add_defect_mode d"
  by (simp_all add: on_region_clicked_eq)

lemma on_region_clicked_cases:
  obtains d' where "on_region_clicked idx d = (None, d')" "regions d' = regions d"
    "current_region_index d' = idx" "regions_modified d' = regions_modified d"
    "notices d' = notices d" "add_defect_mode d' = add_defect_mode d"
  using on_region_clicked_frame [of idx d] by (cases "on_region_clicked idx d") auto

subsection \<open>Deleting a region\<close>

text \<open>
  C4. Deleting the selected region \<open>i\<close> of \<open>N\<close> regions (the user confirming) removes
  exactly that element; afterwards the selection is \<open>N - 2\<close> when \<open>i\<close> was the last
  position, stays \<open>i\<close> when \<open>i < N - 1\<close>, and is \<open>-1\<close> (none) when the list has become
  empty. Without the confirmation nothing changes.
\<close>

theorem delete_current_region_reselects:
  assumes "0 \<le> current_region_index d"
    and "current_region_index d < int (length (regions d))"
  shows "regions (delete_current_region True d) =
           take (nat (current_region_index d)) (regions d) @
           drop (Suc (nat (current_region_index d))) (regions d) \<and>
         (current_region_index d = int (length (regions d)) - 1 \<longrightarrow>
            current_region_index (delete_current_region True d) = int (length (regions d)) - 2) \<and>
         (current_region_index d < int (length (regions d)) - 1 \<longrightarrow>
            current_region_index (delete_current_region True d) = current_region_index d) \<and>
         (length (regions d) = 1 \<longrightarrow>
            regions (delete_current_region True d) = [] \<and>
            current_region_index (delete_current_region True d) = - 1) \<and>
         regions_modified (delete_current_region True d) \<and>
         delete_current_region False d = d"
proof -
  let ?i = "current_region_index d"
  let ?rs = "list_pop (nat ?i) (regions d)"
  let ?d2 = "with_label (set_image_and_regions (image_file d) ?rs)
               (d\<lparr>regions := ?rs, regions_modified := True\<rparr>)"
  have len: "int (length ?rs) = int (length (regions d)) - 1"
    using assms by (simp add: list_pop_def) 
  show ?thesis
  proof (cases "?rs = []")
    case True
    with len have one: "length (regions d) = 1" by simp
    with assms have i0: "?i = 0" by simp
    have "delete_region_try d =
        (None, show_notice DeleteSucceeded
           ((?d2\<lparr>current_region_index := - 1\<rparr>)\<lparr>modify_spin := 0\<rparr>))"
      using True by (simp add: delete_region_try_def Let_def spin_setValue_quiet and_then_def)
    with assms one i0 True show ?thesis
      by (simp add: delete_current_region_def list_pop_def)
  next
    case False
    have fst_try: "fst (delete_region_try d) = None"
      using False
      by (simp add: delete_region_try_def Let_def and_then_def on_region_clicked_eq)
    have regs: "regions (snd (delete_region_try d)) = ?rs"
      using False
      by (simp add: delete_region_try_def Let_def and_then_def on_region_clicked_eq)
    have cur: "current_region_index (snd (delete_region_try d)) =
        (if ?i \<ge> int (length ?rs) then int (length ?rs) - 1 else ?i)"
      using False
      by (simp add: delete_region_try_def Let_def and_then_def on_region_clicked_eq)
    have modi: "regions_modified (snd (delete_region_try d))"
      using False
      by (simp add: delete_region_try_def Let_def and_then_def on_region_clicked_eq)
    have res: "delete_current_region True d = snd (delete_region_try d)"
      using assms fst_try by (cases "delete_region_try d") (simp add: delete_current_region_def)
    from False len have "length (regions d) \<noteq> 1" by auto
    with assms regs cur modi len show ?thesis
      unfolding res by (auto simp add: list_pop_def delete_current_region_def)
  qed
qed


text \<open>
  Three regions with the last one selected: the first two remain and index 1 is
  selected. With the first one selected: the last two remain and index 0 stays
  selected. A single region: the list is empty and nothing is selected.
\<close>

theorem delete_current_region_reselects_witness:
  "regions (delete_current_region True
      (sample_dialog 1 [new_region 1 1 5 5, new_region 2 2 5 5, new_region 3 3 5 5] 2))
     = [new_region 1 1 5 5, new_region 2 2 5 5] \<and>
   current_region_index (delete_current_region True
      (sample_dialog 1 [new_region 1 1 5 5, new_region 2 2 5 5, new_region 3 3 5 5] 2)) = 1 \<and>
   regions (delete_current_region True
      (sample_dialog 1 [new_region 1 1 5 5, new_region 2 2 5 5, new_region 3 3 5 5] 0))
     = [new_region 2 2 5 5, new_region 3 3 5 5] \<and>
   current_region_index (delete_current_region True
      (sample_dialog 1 [new_region 1 1 5 5, new_region 2 2 5 5, new_region 3 3 5 5] 0)) = 0 \<and>
   regions (delete_current_region True (sample_dialog 1 [new_region 1 1 5 5] 0)) = [] \<and>
   current_region_index (delete_current_region True (sample_dialog 1 [new_region 1 1 5 5] 0))
     = - 1"
proof -
  let ?rs = "[new_region 1 1 5 5, new_region 2 2 5 5, new_region 3 3 5 5]"
  have s: "\<And>rs sel. regions (sample_dialog 1 rs sel) = rs"
    "\<And>rs sel. current_region_index (sample_dialog 1 rs sel) = sel"
    by (simp_all add: sample_dialog_def)
  from delete_current_region_reselects [of "sample_dialog 1 ?rs 2"]
    delete_current_region_reselects [of "sample_dialog 1 ?rs 0"]
    delete_current_region_reselects [of "sample_dialog 1 [new_region 1 1 5 5] 0"]
  show ?thesis by (simp add: s)
qed

subsection \<open>Adding a region\<close>

lemma to_original_finite:
  "finite_quotient l v \<Longrightarrow>
   to_original (Some l) v = Inr (int_of_float (screen_quotient l v))"
  by (simp add: to_original_def float_of_int_def float_truediv_def finite_quotient_def
      screen_quotient_def Let_def)

lemma to_original_raises:
  "\<not> finite_quotient l v \<Longrightarrow> \<exists>e. to_original (Some l) v = Inl e"
  by (auto simp: to_original_def float_of_int_def float_truediv_def finite_quotient_def
      screen_quotient_def Let_def)

lemma round_to_float_40: "round_to_float 40 = 40"
  by code_simp

lemma round_to_float_30: "round_to_float 30 = 30"
  by code_simp

lemma round_to_float_20: "round_to_float 20 = 20"
  by code_simp

lemma round_to_float_15: "round_to_float 15 = 15"
  by code_simp

lemma screen_quotient_scale_2:
  assumes "scale_factor l = 2"
  shows "screen_quotient l 40 = 20" and "screen_quotient l 30 = 15"
  using assms
  by (simp_all add: screen_quotient_def round_to_float_40 round_to_float_30
      round_to_float_20 round_to_float_15)

text \<open>
  The double written \<^verbatim>\<open>1.1\<close>, the scale one wheel step above 100%, is a little above
  11/10, so that 33 divided by it is a little below 30.
\<close>

lemma round_to_float_wheel_step: "11 / 10 < round_to_float (11 / 10)"
  by code_simp

lemma round_to_float_drag:
  "round_to_float 33 = 33" "round_to_float 55 = 55"
  "round_to_float 66 = 66" "round_to_float 110 = 110"
  by code_simp+

lemma wheel_step_quotient_33:
  "0 \<le> round_to_float (33 / round_to_float (11 / 10)) \<and>
   round_to_float (33 / round_to_float (11 / 10)) < 30 \<and>
   int_of_float (round_to_float (33 / round_to_float (11 / 10))) = 29"
  by code_simp

lemma wheel_step_quotient_55:
  "0 \<le> round_to_float (55 / round_to_float (11 / 10)) \<and>
   round_to_float (55 / round_to_float (11 / 10)) < 50 \<and>
   int_of_float (round_to_float (55 / round_to_float (11 / 10))) = 49"
  by code_simp

lemma wheel_step_quotient_66:
  "0 \<le> round_to_float (66 / round_to_float (11 / 10)) \<and>
   round_to_float (66 / round_to_float (11 / 10)) < 60 \<and>
   int_of_float (round_to_float (66 / round_to_float (11 / 10))) = 59"
  by code_simp

lemma wheel_step_quotient_110:
  "0 \<le> round_to_float (110 / round_to_float (11 / 10)) \<and>
   round_to_float (110 / round_to_float (11 / 10)) < 100 \<and>
   int_of_float (round_to_float (110 / round_to_float (11 / 10))) = 99"
  by code_simp

text \<open>At the scale that is the double \<^verbatim>\<open>0.6912\<close> the screen number 432 gives 625.\<close>

lemma scaled_quotient_432:
  "int_of_float (round_to_float (432 / round_to_float (6912 / 10000))) = 625"
  by code_simp

lemma toggle_simps [simp]:
  "regions (toggle_add_defect_mode d) = regions d"
  "current_region_index (toggle_add_defect_mode d) = current_region_index d"
  "regions_modified (toggle_add_defect_mode d) = regions_modified d"
  "add_defect_mode (toggle_add_defect_mode d) = (\<not> add_defect_mode d)"
  "notices (toggle_add_defect_mode d) = notices d"
  by (simp_all add: toggle_add_defect_mode_def Let_def)

text \<open>
  C5. Adding a region from a drag, in a dialog with an image view, when each of the four
  divisions returns a finite double: each of the four screen numbers is divided by the
  scale factor, the quotient rounded to a double as Python's float division rounds it,
  and truncated; the region built has \<open>modified_status = 2\<close>, \<open>final_label_index = 1\<close>,
  \<open>yolo_confidence = 0\<close> and four candidates with labels 11, 1, 11, 11, so that its
  effective class is 1, the defect class at index 1; it is appended to the region
  list, selected, and the add-defect mode is left. A 40 by 30 drag at scale 2 gives
  width 20 and height 15.
\<close>

theorem add_new_defect_region_appends:
  assumes "image_label d = Some l"
    and "finite_quotient l sx" and "finite_quotient l sy"
    and "finite_quotient l swidth" and "finite_quotient l sheight"
    and "d' = add_new_defect_region sx sy swidth sheight d"
    and "r = new_region (int_of_float (screen_quotient l sx))
                        (int_of_float (screen_quotient l sy))
                        (int_of_float (screen_quotient l swidth))
                        (int_of_float (screen_quotient l sheight))"
  shows "regions d' = regions d @ [r] \<and>
         modified_status r = Some 2 \<and>
         final_label_index r = Some 1 \<and>
         yolo_confidence r = Some 0 \<and>
         map_option (map label) (label_confidence r) = Some [Some 11, Some 1, Some 11, Some 11] \<and>
         get_region_class_id r = Inr 1 \<and>
         regions_modified d' \<and>
         current_region_index d' = int (length (regions d)) \<and>
         add_defect_mode d' = (\<not> add_defect_mode d) \<and>
         notices d' = notices d @ [AddSucceeded] \<and>
         (scale_factor l = 2 \<and> swidth = 40 \<and> sheight = 30 \<longrightarrow>
            region_width r = Some 20 \<and> region_height r = Some 15)"
proof -
  have fields: "modified_status r = Some 2" "final_label_index r = Some 1"
    "yolo_confidence r = Some 0"
    "map_option (map label) (label_confidence r) = Some [Some 11, Some 1, Some 11, Some 11]"
    using assms(7) by (simp_all add: new_region_def mk_entry_def)
  have cls: "get_region_class_id r = Inr 1"
    using assms(7)
    by (simp add: get_region_class_id_def get_region_class_id_try_def new_region_def
        mk_entry_def dict_get_def py_getitem_def entry_label_def)
  have scen: "scale_factor l = 2 \<and> swidth = 40 \<and> sheight = 30 \<longrightarrow>
            region_width r = Some 20 \<and> region_height r = Some 15"
    using assms(7)
    by (simp add: new_region_def int_of_float_def screen_quotient_scale_2)
  have conv: "to_original (image_label d) sx = Inr (int_of_float (screen_quotient l sx))"
    "to_original (image_label d) sy = Inr (int_of_float (screen_quotient l sy))"
    "to_original (image_label d) swidth = Inr (int_of_float (screen_quotient l swidth))"
    "to_original (image_label d) sheight = Inr (int_of_float (screen_quotient l sheight))"
    using assms(1-5) by (simp_all add: to_original_finite)
  have tr: "add_region_try sx sy swidth sheight d =
        (None, snd (add_region_try sx sy swidth sheight d))"
    "regions (snd (add_region_try sx sy swidth sheight d)) = regions d @ [r]"
    "regions_modified (snd (add_region_try sx sy swidth sheight d))"
    "current_region_index (snd (add_region_try sx sy swidth sheight d)) = int (length (regions d))"
    "add_defect_mode (snd (add_region_try sx sy swidth sheight d)) = (\<not> add_defect_mode d)"
    "notices (snd (add_region_try sx sy swidth sheight d)) = notices d @ [AddSucceeded]"
    using assms(7)
    by (simp_all add: add_region_try_def conv Let_def and_then_def on_region_clicked_eq)
  have "d' = snd (add_region_try sx sy swidth sheight d)"
    using assms(6) tr(1) by (cases "add_region_try sx sy swidth sheight d")
      (simp add: add_new_defect_region_def)
  with fields cls scen tr show ?thesis by simp
qed

text \<open>
  A 40 by 30 drag at (100, 60) on an empty dialog whose view has scale 2: the region
  stored is 20 by 15 at (50, 30), with status 2 and label index 1, and it is selected.
  The drag 33, 55, 66, 110 on a view one wheel step above 100%, whose scale is the
  double \<^verbatim>\<open>1.1\<close>: the region stored is 59 by 99 at (29, 49).
\<close>

theorem add_new_defect_region_appends_witness:
  "regions (add_new_defect_region 100 60 40 30 (sample_dialog 2 [] (- 1)))
     = [new_region 50 30 20 15] \<and>
   region_width (new_region 50 30 20 15) = Some 20 \<and>
   region_height (new_region 50 30 20 15) = Some 15 \<and>
   modified_status (new_region 50 30 20 15) = Some 2 \<and>
   final_label_index (new_region 50 30 20 15) = Some 1 \<and>
   current_region_index (add_new_defect_region 100 60 40 30 (sample_dialog 2 [] (- 1))) = 0 \<and>
   regions (add_new_defect_region 33 55 66 110
              (sample_dialog (round_to_float (11 / 10)) [] (- 1)))
     = [new_region 29 49 59 99]"
proof -
  have s: "image_label (sample_dialog 2 [] (- 1)) = Some (sample_view 2 [])"
    "scale_factor (sample_view 2 []) = 2"
    "regions (sample_dialog 2 [] (- 1)) = []"
    by (simp_all add: sample_dialog_def sample_view_def ImageLabel_init_def)
  have r: "round_to_float 100 = 100" "round_to_float 60 = 60" "round_to_float 50 = 50"
    by code_simp+
  have q: "screen_quotient (sample_view 2 []) 100 = 50"
    "screen_quotient (sample_view 2 []) 60 = 30"
    "screen_quotient (sample_view 2 []) 40 = 20"
    "screen_quotient (sample_view 2 []) 30 = 15"
    by (simp_all add: screen_quotient_def s(2) r round_to_float_40 round_to_float_30
        round_to_float_20 round_to_float_15)
  have f: "finite_quotient (sample_view 2 []) 100" "finite_quotient (sample_view 2 []) 60"
    "finite_quotient (sample_view 2 []) 40" "finite_quotient (sample_view 2 []) 30"
    by (simp_all add: finite_quotient_def q s(2) r round_to_float_40 round_to_float_30)
  have t: "image_label (sample_dialog (round_to_float (11 / 10)) [] (- 1))
             = Some (sample_view (round_to_float (11 / 10)) [])"
    "scale_factor (sample_view (round_to_float (11 / 10)) []) = round_to_float (11 / 10)"
    "regions (sample_dialog (round_to_float (11 / 10)) [] (- 1)) = []"
    by (simp_all add: sample_dialog_def sample_view_def ImageLabel_init_def)
  have nz: "round_to_float (11 / 10) \<noteq> 0"
    using round_to_float_wheel_step by simp
  have g: "finite_quotient (sample_view (round_to_float (11 / 10)) []) 33"
    "finite_quotient (sample_view (round_to_float (11 / 10)) []) 55"
    "finite_quotient (sample_view (round_to_float (11 / 10)) []) 66"
    "finite_quotient (sample_view (round_to_float (11 / 10)) []) 110"
    unfolding finite_quotient_def screen_quotient_def t(2)
    using nz wheel_step_quotient_33 wheel_step_quotient_55 wheel_step_quotient_66
      wheel_step_quotient_110
    by (simp_all add: round_to_float_drag)
  have w: "int_of_float (screen_quotient (sample_view (round_to_float (11 / 10)) []) 33) = 29"
    "int_of_float (screen_quotient (sample_view (round_to_float (11 / 10)) []) 55) = 49"
    "int_of_float (screen_quotient (sample_view (round_to_float (11 / 10)) []) 66) = 59"
    "int_of_float (screen_quotient (sample_view (round_to_float (11 / 10)) []) 110) = 99"
    unfolding screen_quotient_def t(2)
    using wheel_step_quotient_33 wheel_step_quotient_55 wheel_step_quotient_66
      wheel_step_quotient_110
    by (simp_all add: round_to_float_drag)
  have a: "regions (add_new_defect_region 100 60 40 30 (sample_dialog 2 [] (- 1)))
             = [new_region 50 30 20 15] \<and>
           current_region_index (add_new_defect_region 100 60 40 30 (sample_dialog 2 [] (- 1)))
             = 0"
    using add_new_defect_region_appends [OF s(1) f refl refl] s(3)
    by (simp add: q int_of_float_def)
  have b: "regions (add_new_defect_region 33 55 66 110
                      (sample_dialog (round_to_float (11 / 10)) [] (- 1)))
             = [new_region 29 49 59 99]"
    using add_new_defect_region_appends [OF t(1) g refl refl] t(3)
    by (simp add: w)
  from a b show ?thesis by (simp add: new_region_def)
qed

subsection \<open>The modification status\<close>

lemma store_region_simps [simp]:
  "regions (store_region i r d) = (regions d)[i := r]"
  "current_region_index (store_region i r d) = current_region_index d"
  "updating_modify_status (store_region i r d) = updating_modify_status d"
  "regions_modified (store_region i r d) = regions_modified d"
  "modify_spin (store_region i r d) = modify_spin d"
  by (simp_all add: store_region_def)

lemma go_to_next_region_regions:
  "regions (snd (go_to_next_region d)) = regions d"
  by (simp add: go_to_next_region_def Let_def and_then_def on_region_clicked_eq)

lemma spin_setValue_keeps:
  assumes "j < length (regions d)" and "modified_status (regions d ! j) = Some 2"
    and "nat (current_region_index d) \<noteq> j \<or> current_region_index d < 0"
  shows "length (regions (snd (spin_setValue v d))) = length (regions d) \<and>
         modified_status (regions (snd (spin_setValue v d)) ! j) = Some 2 \<and>
         current_region_index (snd (spin_setValue v d)) = current_region_index d"
  using assms
  by (auto simp: spin_setValue_def Let_def on_modify_changed_def py_getitem_def
      nth_list_update)

lemma quick_confirm_keeps:
  assumes "j < length (regions d)" and "modified_status (regions d ! j) = Some 2"
  shows "length (regions (snd (quick_confirm_current_region d))) = length (regions d) \<and>
         modified_status (regions (snd (quick_confirm_current_region d)) ! j) = Some 2"
proof (cases "current_region_index d \<ge> 0 \<and> current_region_index d < int (length (regions d))")
  case False
  with assms show ?thesis by (auto simp add: quick_confirm_current_region_def)
next
  case True
  let ?i = "nat (current_region_index d)"
  let ?region = "regions d ! ?i"
  show ?thesis
  proof (cases "dict_get (modified_status ?region) 0 \<noteq> 2")
    case False
    with True assms show ?thesis
      by (auto simp add: quick_confirm_current_region_def Let_def and_then_def
          go_to_next_region_regions)
  next
    case ne: True
    with assms have ij: "?i \<noteq> j" by (auto simp: dict_get_def)
    let ?d0 = "(store_region ?i (?region\<lparr>modified_status := Some 1\<rparr>) d)\<lparr>regions_modified := True\<rparr>"
    have "j < length (regions ?d0)" "modified_status (regions ?d0 ! j) = Some 2"
      "nat (current_region_index ?d0) \<noteq> j \<or> current_region_index ?d0 < 0"
      using assms ij by simp_all
    from spin_setValue_keeps [OF this, of 1]
    have k: "length (regions (snd (spin_setValue 1 ?d0))) = length (regions d)"
      "modified_status (regions (snd (spin_setValue 1 ?d0)) ! j) = Some 2" by simp_all
    obtain e d1 where sp: "spin_setValue 1 ?d0 = (e, d1)" by (cases "spin_setValue 1 ?d0")
    with k have d1: "length (regions d1) = length (regions d)"
      "modified_status (regions d1 ! j) = Some 2" by simp_all
    show ?thesis
      using True ne sp d1
      by (cases e) (auto simp add: quick_confirm_current_region_def Let_def and_then_def
          go_to_next_region_regions)
  qed
qed

lemma on_modify_changed_sets:
  assumes "0 \<le> current_region_index d" and "current_region_index d < int (length (regions d))"
    and "\<not> updating_modify_status d"
  shows "fst (on_modify_changed v d) = None \<and>
    modified_status (regions (snd (on_modify_changed v d)) ! nat (current_region_index d)) = Some v"
  using assms by (simp add: on_modify_changed_def py_getitem_def)

lemma on_class_changed_regions:
  assumes "0 \<le> current_region_index d" and "current_region_index d < int (length (regions d))"
    and "\<not> updating_class_selection d"
    and "r = regions d ! nat (current_region_index d)"
    and "fli = dict_get (final_label_index r) 0"
    and "lc = dict_get (label_confidence r) []"
    and "0 \<le> fli" and "fli < int (length lc)"
    and "r1 = r\<lparr>label_confidence := Some (lc[nat fli := (lc ! nat fli)\<lparr>label := Some c\<rparr>])\<rparr>"
  shows "regions (snd (on_class_changed c d)) =
           (regions d)[nat (current_region_index d) :=
              (if dict_get (modified_status r) 0 \<noteq> 2 then r1\<lparr>modified_status := Some 1\<rparr>
               else r1)]"
proof (cases "dict_get (modified_status r) 0 \<noteq> 2")
  case True
  with assms show ?thesis
    by (simp add: on_class_changed_def Let_def py_getitem_def and_then_def
        load_region_data_eq spin_setValue_quiet split: option.split)
next
  case False
  with assms show ?thesis
    by (simp add: on_class_changed_def Let_def py_getitem_def and_then_def
        load_region_data_eq spin_setValue_quiet split: option.split)
qed

lemma on_class_changed_regions_other:
  assumes "\<not> (0 \<le> current_region_index d \<and> current_region_index d < int (length (regions d)) \<and>
       \<not> updating_class_selection d \<and>
       0 \<le> dict_get (final_label_index (regions d ! nat (current_region_index d))) 0 \<and>
       dict_get (final_label_index (regions d ! nat (current_region_index d))) 0
         < int (length (dict_get (label_confidence (regions d ! nat (current_region_index d))) [])))"
  shows "regions (snd (on_class_changed c d)) = regions d"
proof (cases "0 \<le> current_region_index d \<and> \<not> updating_class_selection d")
  case False
  then show ?thesis by (auto simp add: on_class_changed_def)
next
  case True
  show ?thesis
  proof (cases "current_region_index d < int (length (regions d))")
    case False
    with True show ?thesis by (simp add: on_class_changed_def py_getitem_def)
  next
    case inr: True
    show ?thesis
    proof (cases "0 \<le> dict_get (final_label_index (regions d ! nat (current_region_index d))) 0")
      case False
      with True inr show ?thesis
        by (simp add: on_class_changed_def py_getitem_def Let_def)
    next
      case nonneg: True
      with True inr assms
      have "\<not> dict_get (final_label_index (regions d ! nat (current_region_index d))) 0
         < int (length (dict_get (label_confidence (regions d ! nat (current_region_index d))) []))"
        by blast
      with True inr show ?thesis
        by (simp add: on_class_changed_def py_getitem_def Let_def)
    qed
  qed
qed

lemma on_class_changed_keeps:
  assumes "j < length (regions d)" and "modified_status (regions d ! j) = Some 2"
  shows "length (regions (snd (on_class_changed c d))) = length (regions d) \<and>
         modified_status (regions (snd (on_class_changed c d)) ! j) = Some 2"
proof (cases "0 \<le> current_region_index d \<and> current_region_index d < int (length (regions d)) \<and>
       \<not> updating_class_selection d \<and>
       0 \<le> dict_get (final_label_index (regions d ! nat (current_region_index d))) 0 \<and>
       dict_get (final_label_index (regions d ! nat (current_region_index d))) 0
         < int (length (dict_get (label_confidence (regions d ! nat (current_region_index d))) []))")
  case False
  from on_class_changed_regions_other [OF this] assms show ?thesis by simp
next
  case True
  then have eq: "regions (snd (on_class_changed c d)) =
     (regions d)[nat (current_region_index d) :=
        (if dict_get (modified_status (regions d ! nat (current_region_index d))) 0 \<noteq> 2
         then (regions d ! nat (current_region_index d))
                \<lparr>label_confidence := Some ((dict_get (label_confidence (regions d ! nat (current_region_index d))) [])
                   [nat (dict_get (final_label_index (regions d ! nat (current_region_index d))) 0) :=
                     ((dict_get (label_confidence (regions d ! nat (current_region_index d))) []) !
                        nat (dict_get (final_label_index (regions d ! nat (current_region_index d))) 0))
                       \<lparr>label := Some c\<rparr>])\<rparr>\<lparr>modified_status := Some 1\<rparr>
         else (regions d ! nat (current_region_index d))
                \<lparr>label_confidence := Some ((dict_get (label_confidence (regions d ! nat (current_region_index d))) [])
                   [nat (dict_get (final_label_index (regions d ! nat (current_region_index d))) 0) :=
                     ((dict_get (label_confidence (regions d ! nat (current_region_index d))) []) !
                        nat (dict_get (final_label_index (regions d ! nat (current_region_index d))) 0))
                       \<lparr>label := Some c\<rparr>])\<rparr>)]"
    by (intro on_class_changed_regions) simp_all
  show ?thesis
  proof (cases "j = nat (current_region_index d)")
    case True
    with assms eq show ?thesis by (simp add: dict_get_def)
  next
    case False
    with assms eq show ?thesis by simp
  qed
qed

lemma on_class_changed_current:
  assumes "0 \<le> current_region_index d" and "current_region_index d < int (length (regions d))"
    and "\<not> updating_class_selection d"
    and "r = regions d ! nat (current_region_index d)"
    and "0 \<le> dict_get (final_label_index r) 0"
    and "dict_get (final_label_index r) 0 < int (length (dict_get (label_confidence r) []))"
  shows "get_region_class_id (regions (snd (on_class_changed c d)) ! nat (current_region_index d)) = Inr c \<and>
         (dict_get (modified_status r) 0 \<noteq> 2 \<longrightarrow>
            modified_status (regions (snd (on_class_changed c d)) ! nat (current_region_index d)) = Some 1)"
proof -
  note eq = on_class_changed_regions [OF assms(1-4) refl refl assms(5,6) refl, of c]
  have lcS: "label_confidence r = Some (dict_get (label_confidence r) [])"
    using assms(5,6) by (cases "label_confidence r") (simp_all add: dict_get_def)
  show ?thesis
    using assms(1,2,5,6) unfolding eq
    by (auto simp add: get_region_class_id_def get_region_class_id_try_def Let_def
        py_getitem_def entry_label_def dict_get_def)
qed

lemma spin_setValue_current:
  assumes "0 \<le> current_region_index d" and "current_region_index d < int (length (regions d))"
    and "modified_status (regions d ! nat (current_region_index d)) = Some (max 0 (min 2 v))"
  shows "length (regions (snd (spin_setValue v d))) = length (regions d) \<and>
         modified_status (regions (snd (spin_setValue v d)) ! nat (current_region_index d))
           = Some (max 0 (min 2 v)) \<and>
         current_region_index (snd (spin_setValue v d)) = current_region_index d"
  using assms
  by (auto simp: spin_setValue_def Let_def on_modify_changed_def py_getitem_def)

lemma quick_confirm_sets_modified:
  assumes "0 \<le> current_region_index d" and "current_region_index d < int (length (regions d))"
    and "dict_get (modified_status (regions d ! nat (current_region_index d))) 0 \<noteq> 2"
  shows "modified_status
           (regions (snd (quick_confirm_current_region d)) ! nat (current_region_index d))
         = Some 1"
proof -
  let ?i = "nat (current_region_index d)"
  let ?region = "regions d ! ?i"
  let ?d0 = "(store_region ?i (?region\<lparr>modified_status := Some 1\<rparr>) d)\<lparr>regions_modified := True\<rparr>"
  have "0 \<le> current_region_index ?d0" "current_region_index ?d0 < int (length (regions ?d0))"
    "modified_status (regions ?d0 ! nat (current_region_index ?d0)) = Some (max 0 (min 2 1))"
    using assms by simp_all
  from spin_setValue_current [OF this]
  have k: "modified_status (regions (snd (spin_setValue 1 ?d0)) ! ?i) = Some 1" by simp
  obtain e d1 where sp: "spin_setValue 1 ?d0 = (e, d1)" by (cases "spin_setValue 1 ?d0")
  with k have d1: "modified_status (regions d1 ! ?i) = Some 1" by simp
  show ?thesis
    using assms sp d1
    by (cases e) (auto simp add: quick_confirm_current_region_def Let_def and_then_def
        go_to_next_region_regions)
qed

text \<open>
  C3. A region whose status is Added (2) keeps that status through a class change and
  through a quick-confirm, whichever region is current: both set the status of the
  current region to 1 only when it is not 2 (and then they do set it, the class change
  given a label index in range), while a class change on an Added region still rewrites
  its label. The direct status override stores the value chosen, also over a 2.
\<close>

theorem added_status_survives_edits:
  assumes "j < length (regions d)"
  shows "(modified_status (regions d ! j) = Some 2 \<longrightarrow>
            length (regions (snd (on_class_changed c d))) = length (regions d) \<and>
            modified_status (regions (snd (on_class_changed c d)) ! j) = Some 2 \<and>
            length (regions (snd (quick_confirm_current_region d))) = length (regions d) \<and>
            modified_status (regions (snd (quick_confirm_current_region d)) ! j) = Some 2) \<and>
         (current_region_index d = int j \<and>
          dict_get (modified_status (regions d ! j)) 0 \<noteq> 2 \<longrightarrow>
            modified_status (regions (snd (quick_confirm_current_region d)) ! j) = Some 1) \<and>
         (current_region_index d = int j \<and> \<not> updating_class_selection d \<and>
          0 \<le> dict_get (final_label_index (regions d ! j)) 0 \<and>
          dict_get (final_label_index (regions d ! j)) 0
            < int (length (dict_get (label_confidence (regions d ! j)) [])) \<longrightarrow>
            get_region_class_id (regions (snd (on_class_changed c d)) ! j) = Inr c \<and>
            (dict_get (modified_status (regions d ! j)) 0 \<noteq> 2 \<longrightarrow>
               modified_status (regions (snd (on_class_changed c d)) ! j) = Some 1)) \<and>
         (current_region_index d = int j \<and> \<not> updating_modify_status d \<longrightarrow>
            fst (on_modify_changed v d) = None \<and>
            modified_status (regions (snd (on_modify_changed v d)) ! j) = Some v)"
proof (intro conjI impI)
  assume a: "modified_status (regions d ! j) = Some 2"
  from on_class_changed_keeps [OF assms a]
  show "length (regions (snd (on_class_changed c d))) = length (regions d)"
    and "modified_status (regions (snd (on_class_changed c d)) ! j) = Some 2" by simp_all
  from quick_confirm_keeps [OF assms a]
  show "length (regions (snd (quick_confirm_current_region d))) = length (regions d)"
    and "modified_status (regions (snd (quick_confirm_current_region d)) ! j) = Some 2"
    by simp_all
next
  assume "current_region_index d = int j \<and>
          dict_get (modified_status (regions d ! j)) 0 \<noteq> 2"
  with assms quick_confirm_sets_modified [of d]
  show "modified_status (regions (snd (quick_confirm_current_region d)) ! j) = Some 1"
    by simp
next
  assume b: "current_region_index d = int j \<and> \<not> updating_class_selection d \<and>
          0 \<le> dict_get (final_label_index (regions d ! j)) 0 \<and>
          dict_get (final_label_index (regions d ! j)) 0
            < int (length (dict_get (label_confidence (regions d ! j)) []))"
  with assms on_class_changed_current [of d "regions d ! j" c]
  show "get_region_class_id (regions (snd (on_class_changed c d)) ! j) = Inr c" by simp
  assume "dict_get (modified_status (regions d ! j)) 0 \<noteq> 2"
  with b assms on_class_changed_current [of d "regions d ! j" c]
  show "modified_status (regions (snd (on_class_changed c d)) ! j) = Some 1" by simp
next
  assume "current_region_index d = int j \<and> \<not> updating_modify_status d"
  with assms on_modify_changed_sets [of d v]
  show "fst (on_modify_changed v d) = None"
    and "modified_status (regions (snd (on_modify_changed v d)) ! j) = Some v" by simp_all
qed

text \<open>
  With the added region current: a class change to 3 and a quick-confirm leave its
  status at 2 (its class becomes 3), the status override to 1 stores 1. With the
  untouched region current: quick-confirm and a class change both set its status to 1.
\<close>

theorem added_status_survives_edits_witness:
  "modified_status (regions (snd (on_class_changed 3 (sample_dialog 1 sample_regions 0))) ! 0)
     = Some 2 \<and>
   get_region_class_id (regions (snd (on_class_changed 3 (sample_dialog 1 sample_regions 0))) ! 0)
     = Inr 3 \<and>
   modified_status
     (regions (snd (quick_confirm_current_region (sample_dialog 1 sample_regions 0))) ! 0)
     = Some 2 \<and>
   modified_status (regions (snd (on_modify_changed 1 (sample_dialog 1 sample_regions 0))) ! 0)
     = Some 1 \<and>
   modified_status
     (regions (snd (quick_confirm_current_region (sample_dialog 1 sample_regions 1))) ! 1)
     = Some 1 \<and>
   modified_status (regions (snd (on_class_changed 3 (sample_dialog 1 sample_regions 1))) ! 1)
     = Some 1"
proof -
  have s: "\<And>sel. regions (sample_dialog 1 sample_regions sel) = sample_regions"
    "\<And>sel. current_region_index (sample_dialog 1 sample_regions sel) = sel"
    "\<And>sel. \<not> updating_class_selection (sample_dialog 1 sample_regions sel)"
    "\<And>sel. \<not> updating_modify_status (sample_dialog 1 sample_regions sel)"
    by (simp_all add: sample_dialog_def)
  have r: "length sample_regions = 2"
    "modified_status (sample_regions ! 0) = Some 2"
    "dict_get (modified_status (sample_regions ! 1)) 0 \<noteq> 2"
    "dict_get (final_label_index (sample_regions ! 0)) 0 = 1"
    "dict_get (final_label_index (sample_regions ! 1)) 0 = 1"
    "length (dict_get (label_confidence (sample_regions ! 0)) []) = 4"
    "length (dict_get (label_confidence (sample_regions ! 1)) []) = 4"
    by (simp_all add: sample_regions_def new_region_def dict_get_def)
  from added_status_survives_edits [of 0 "sample_dialog 1 sample_regions 0" 3 1]
    added_status_survives_edits [of 1 "sample_dialog 1 sample_regions 1" 3 1]
    s r
  show ?thesis by simp
qed

subsection \<open>Saving\<close>

text \<open>
  C9. Saving never changes the dialog's regions. When \<^verbatim>\<open>save_json_data\<close> raises, the
  error is caught and reported and the dirty flag stays set. The dirty flag goes from
  set to cleared only when the user agreed and \<^verbatim>\<open>save_json_data\<close> returned without an
  exception, having written the whole document to the selected path.
\<close>

theorem save_failure_keeps_dirty_flag:
  assumes "save_changes reply_yes io parent_app files d = (d', files')"
  shows "regions d' = regions d \<and>
         (\<forall>a e fs. regions_modified d \<and> reply_yes \<and> parent_app = Some a \<and>
                    save_json_data io a files = (Some e, fs) \<longrightarrow>
            regions_modified d' \<and> notices d' = notices d @ [SaveError]) \<and>
         (regions_modified d \<and> \<not> regions_modified d' \<longrightarrow>
            reply_yes \<and>
            (\<exists>a path doc. parent_app = Some a \<and>
               save_json_data io a files = (None, files') \<and>
               selected_file_path a = Some path \<and> json_data a = Some doc \<and>
               files' path = Some (Whole doc) \<and> notices d' = notices d @ [SaveSucceeded])) \<and>
         close_called d'"
proof -
  have sj: "\<exists>path doc. selected_file_path a = Some path \<and> json_data a = Some doc \<and>
               fs path = Some (Whole doc)"
    if "save_json_data io a files = (None, fs)" for a fs
    using that
    by (auto simp: save_json_data_def split: option.splits if_splits write_outcome.splits)
  show ?thesis
    using assms sj
    by (auto simp: save_changes_def show_notice_def split: option.splits if_splits prod.splits)
qed


text \<open>
  A dirty dialog whose save fails at \<^verbatim>\<open>open\<close> or during the dump keeps its flag, its
  regions and reports the error; the same dialog with a write that succeeds clears it.
\<close>

theorem save_failure_keeps_dirty_flag_witness:
  "regions_modified
     (fst (save_changes True OpenFails (Some sample_app) Map.empty
        ((sample_dialog 1 [new_region 1 1 5 5] 0)\<lparr>regions_modified := True\<rparr>))) \<and>
   notices
     (fst (save_changes True DumpFails (Some sample_app) Map.empty
        ((sample_dialog 1 [new_region 1 1 5 5] 0)\<lparr>regions_modified := True\<rparr>)))
     = [SaveError] \<and>
   regions
     (fst (save_changes True DumpFails (Some sample_app) Map.empty
        ((sample_dialog 1 [new_region 1 1 5 5] 0)\<lparr>regions_modified := True\<rparr>)))
     = [new_region 1 1 5 5] \<and>
   \<not> regions_modified
     (fst (save_changes True WriteSucceeds (Some sample_app) Map.empty
        ((sample_dialog 1 [new_region 1 1 5 5] 0)\<lparr>regions_modified := True\<rparr>)))"
proof -
  let ?d = "(sample_dialog 1 [new_region 1 1 5 5] 0)\<lparr>regions_modified := True\<rparr>"
  have d: "regions_modified ?d" "notices ?d = []" "regions ?d = [new_region 1 1 5 5]"
    by (simp_all add: sample_dialog_def)
  have sj: "save_json_data OpenFails sample_app Map.empty = (Some OtherException, Map.empty)"
    "save_json_data DumpFails sample_app Map.empty
       = (Some OtherException, [''batch.json'' \<mapsto> Damaged])"
    by (simp_all add: save_json_data_def sample_app_def empty_document_def)
  have ok: "\<not> regions_modified (fst (save_changes True WriteSucceeds (Some sample_app) Map.empty ?d))"
    by (simp add: save_changes_def save_json_data_def sample_app_def empty_document_def
        show_notice_def)
  from save_failure_keeps_dirty_flag
         [of True OpenFails "Some sample_app" Map.empty ?d
             "fst (save_changes True OpenFails (Some sample_app) Map.empty ?d)"
             "snd (save_changes True OpenFails (Some sample_app) Map.empty ?d)"]
       save_failure_keeps_dirty_flag
         [of True DumpFails "Some sample_app" Map.empty ?d
             "fst (save_changes True DumpFails (Some sample_app) Map.empty ?d)"
             "snd (save_changes True DumpFails (Some sample_app) Map.empty ?d)"]
       d sj ok
  show ?thesis by simp
qed

subsection \<open>Splitting names\<close>

lemma py_split_nonempty: "py_split sep s \<noteq> []"
  by (induction s) (auto split: list.splits)

lemma py_split_unfold:
  "py_split sep s =
     takeWhile (\<lambda>c. c \<noteq> sep) s #
     (case dropWhile (\<lambda>c. c \<noteq> sep) s of [] \<Rightarrow> [] | x # rest \<Rightarrow> py_split sep rest)"
proof (induction s)
  case Nil
  then show ?case by simp
next
  case (Cons c cs)
  show ?case
  proof (cases "c = sep")
    case True
    then show ?thesis by simp
  next
    case False
    obtain p ps where sp: "py_split sep cs = p # ps"
      using py_split_nonempty [of sep cs] by (cases "py_split sep cs") auto
    with Cons.IH have "p = takeWhile (\<lambda>c. c \<noteq> sep) cs"
      and "ps = (case dropWhile (\<lambda>c. c \<noteq> sep) cs of [] \<Rightarrow> [] | x # rest \<Rightarrow> py_split sep rest)"
      by simp_all
    with False sp show ?thesis by simp
  qed
qed

lemma py_split_second:
  assumes "sep \<in> set s"
  shows "length (py_split sep s) \<ge> 2 \<and>
         py_split sep s ! 1 = takeWhile (\<lambda>c. c \<noteq> sep) (drop 1 (dropWhile (\<lambda>c. c \<noteq> sep) s))"
proof -
  from assms obtain x rest where d: "dropWhile (\<lambda>c. c \<noteq> sep) s = x # rest"
    by (cases "dropWhile (\<lambda>c. c \<noteq> sep) s") (auto simp: dropWhile_eq_Nil_conv)
  have a: "py_split sep s = takeWhile (\<lambda>c. c \<noteq> sep) s # py_split sep rest"
    using py_split_unfold [of sep s] d by simp
  have b: "py_split sep rest = takeWhile (\<lambda>c. c \<noteq> sep) rest #
     (case dropWhile (\<lambda>c. c \<noteq> sep) rest of [] \<Rightarrow> [] | x # r \<Rightarrow> py_split sep r)"
    by (rule py_split_unfold)
  show ?thesis
    unfolding a using d by (subst b, simp)+
qed

lemma prefix_has_underscore:
  assumes "has_camera_prefix name"
  shows "CHR ''_'' \<in> set name"
proof -
  from assms obtain pre where pre: "pre = ''p1_'' \<or> pre = ''p2_''"
    "take (length pre) name = pre"
    unfolding has_camera_prefix_def py_startswith_def by blast
  from pre(1) have "CHR ''_'' \<in> set pre" by auto
  with pre(2) have "CHR ''_'' \<in> set (take (length pre) name)" by simp
  then show ?thesis by (rule in_set_takeD)
qed

lemma number_field_suffix:
  assumes "CHR ''_'' \<notin> set a" and "CHR ''_'' \<notin> set b"
  shows "number_field (a @ CHR ''_'' # b) = b"
proof -
  from assms(1) have "dropWhile (\<lambda>c. c \<noteq> CHR ''_'') (a @ CHR ''_'' # b) = CHR ''_'' # b"
    by (induction a) auto
  moreover from assms(2) have "takeWhile (\<lambda>c. c \<noteq> CHR ''_'') b = b"
    by (auto simp: takeWhile_eq_all_conv)
  ultimately show ?thesis by (simp add: number_field_def)
qed

lemma side_of_pic_Some:
  "side_of_pic p = Some sd \<longleftrightarrow>
     has_camera_prefix (dict_get (connectButtonName p) []) \<and>
     (\<exists>n. py_int (number_field (dict_get (connectButtonName p) [])) = Some n \<and>
          (sd = Front \<and> 1 \<le> n \<and> n \<le> 25 \<or> sd = Back \<and> 26 \<le> n \<and> n \<le> 50))"
proof (cases "has_camera_prefix (dict_get (connectButtonName p) [])")
  case False
  then show ?thesis by (simp add: side_of_pic_def has_camera_prefix_def)
next
  case True
  from py_split_second [OF prefix_has_underscore [OF True]]
  have g: "py_getitem (py_split (CHR ''_'') (dict_get (connectButtonName p) [])) 1
      = Inr (number_field (dict_get (connectButtonName p) []))"
    by (simp add: py_getitem_def number_field_def)
  have "side_of_pic p = side_of_number (dict_get (connectButtonName p) [])"
    using True by (auto simp: side_of_pic_def has_camera_prefix_def Let_def)
  with True g show ?thesis
    by (auto simp: side_of_number_def split: option.splits)
qed

lemma separate_pics_filter:
  "separate_pics ps (front_pics, back_pics) =
     (front_pics @ filter (\<lambda>p. side_of_pic p = Some Front) ps,
      back_pics @ filter (\<lambda>p. side_of_pic p = Some Back) ps)"
proof (induction ps arbitrary: front_pics back_pics)
  case Nil
  then show ?case by simp
next
  case (Cons p ps)
  show ?case
  proof (cases "side_of_pic p")
    case None
    with Cons.IH show ?thesis by simp
  next
    case (Some sd)
    with Cons.IH show ?thesis by (cases sd) simp_all
  qed
qed

lemma side_prefixed: "side_of_pic p = Some sd \<Longrightarrow> has_camera_prefix (pic_name p)"
  by (simp add: side_of_pic_Some pic_name_def)

lemma extract_number_sided:
  assumes "side_of_pic p = Some sd"
  shows "py_int (number_field (pic_name p)) = Some (extract_number p)"
proof -
  from assms obtain n where pre: "has_camera_prefix (pic_name p)"
    and n: "py_int (number_field (pic_name p)) = Some n"
    by (auto simp: side_of_pic_Some pic_name_def)
  from py_split_second [OF prefix_has_underscore [OF pre]]
  have "length (py_split (CHR ''_'') (pic_name p)) \<ge> 2"
    and "py_split (CHR ''_'') (pic_name p) ! 1 = number_field (pic_name p)"
    by (simp_all add: number_field_def)
  with n show ?thesis by (simp add: extract_number_def pic_name_def Let_def)
qed

subsection \<open>Placing buttons\<close>

lemma prefixed_name:
  assumes "has_camera_prefix (pic_name p)"
  shows "button_name_of p n = pic_name p"
proof (cases "connectButtonName p")
  case None
  with assms show ?thesis
    by (simp add: pic_name_def dict_get_def has_camera_prefix_def py_startswith_def)
next
  case (Some a)
  then show ?thesis by (simp add: button_name_of_def pic_name_def dict_get_def)
qed

lemma prefixed_next_row:
  assumes "has_camera_prefix (pic_name p)"
  shows "next_row is_front pic_info_list p (pic_name p) row
           = Some (placed_row is_front pic_info_list p)"
proof -
  from assms have "py_startswith (pic_name p) ''p1_'' \<and> take 3 (pic_name p) = ''p1_'' \<or>
    \<not> py_startswith (pic_name p) ''p1_'' \<and> py_startswith (pic_name p) ''p2_'' \<and>
      take 3 (pic_name p) = ''p2_''"
    by (auto simp: has_camera_prefix_def py_startswith_def numeral_3_eq_3)
  then show ?thesis
    by (auto simp: next_row_def placed_row_def Let_def)
qed

lemma place_buttons_prefixed:
  assumes "\<forall>p \<in> set ps. has_camera_prefix (pic_name p)"
  shows "place_buttons is_front pic_info_list ps row n =
           (None, map (\<lambda>p. button_cell p (pic_name p) (placed_row is_front pic_info_list p)) ps)"
  using assms
proof (induction ps arbitrary: row n)
  case Nil
  then show ?case by simp
next
  case (Cons p ps)
  then have p: "has_camera_prefix (pic_name p)" by simp
  from Cons have "place_buttons is_front pic_info_list ps
      (Some (placed_row is_front pic_info_list p)) (Suc n) =
      (None, map (\<lambda>p. button_cell p (pic_name p) (placed_row is_front pic_info_list p)) ps)"
    by simp
  then show ?case
    by (simp add: prefixed_name [OF p] prefixed_next_row [OF p])
qed

lemma button_pics_Nil [simp]: "button_pics [] = []"
  by (simp add: button_pics_def)

lemma button_pics_append [simp]: "button_pics (xs @ ys) = button_pics xs @ button_pics ys"
  by (simp add: button_pics_def)

lemma button_pics_column_labels [simp]: "button_pics column_labels = []"
  by (simp add: button_pics_def column_labels_def)

lemma button_pics_button_cells [simp]:
  "button_pics (map (\<lambda>p. button_cell p (f p) (g p)) ps) = ps"
  by (induction ps) (simp_all add: button_pics_def button_cell_def)

lemma add_buttons_prefixed:
  assumes "\<forall>p \<in> set pics. has_camera_prefix (pic_name p)"
  shows "add_buttons pics =
           (None, if pics = [] then []
                  else column_labels @
                       map (\<lambda>p. button_cell p (pic_name p)
                                   (placed_row (is_front_list pics) pics p)) pics)"
  using place_buttons_prefixed [OF assms] by (simp add: add_buttons_def)

lemma add_buttons_prefixed_pics:
  assumes "\<forall>p \<in> set pics. has_camera_prefix (pic_name p)"
  shows "fst (add_buttons pics) = None" and "button_pics (snd (add_buttons pics)) = pics"
  using add_buttons_prefixed [OF assms] by simp_all

lemma add_buttons_cell:
  assumes "\<forall>p \<in> set pics. has_camera_prefix (pic_name p)" and "i < length pics"
  shows "snd (add_buttons pics) ! (10 + i) =
           button_cell (pics ! i) (pic_name (pics ! i))
             (placed_row (is_front_list pics) pics (pics ! i))"
proof -
  from assms(2) have ne: "pics \<noteq> []" by auto
  have len: "length column_labels = 10" by (simp add: column_labels_def)
  show ?thesis
    using ne assms(2) len
    by (simp add: add_buttons_prefixed [OF assms(1)] nth_append)
qed

lemma process_board_data_boards:
  assumes "currentBlackboard doc = Some board" and "all_pic_info board = Some pics"
    and "pics \<noteq> []"
  shows "process_board_data (Some doc) b =
           b\<lparr>front_view := snd (add_buttons (front_pics_of pics)),
             back_view := snd (add_buttons (back_pics_of pics))\<rparr>"
proof -
  have f: "\<forall>p \<in> set (front_pics_of pics). has_camera_prefix (pic_name p)"
    by (auto simp: front_pics_of_def intro: side_prefixed)
  have bk: "\<forall>p \<in> set (back_pics_of pics). has_camera_prefix (pic_name p)"
    by (auto simp: back_pics_of_def intro: side_prefixed)
  obtain c1 where c1: "add_buttons (front_pics_of pics) = (None, c1)"
    using add_buttons_prefixed_pics(1) [OF f] by (cases "add_buttons (front_pics_of pics)") auto
  obtain c2 where c2: "add_buttons (back_pics_of pics) = (None, c2)"
    using add_buttons_prefixed_pics(1) [OF bk] by (cases "add_buttons (back_pics_of pics)") auto
  from assms have ne: "doc \<noteq> empty_document" "board \<noteq> empty_blackboard"
    by (auto simp: empty_document_def empty_blackboard_def)
  show ?thesis
    using assms ne c1 c2
    by (simp add: process_board_data_def dict_get_def separate_pics_filter
        front_pics_of_def back_pics_of_def)
qed

lemma front_pics_side: "side_of_list (front_pics_of pics) = Front"
proof (cases "front_pics_of pics")
  case Nil
  then show ?thesis by (simp add: side_of_list_def is_front_list_def)
next
  case (Cons p ps)
  then have "p \<in> set (front_pics_of pics)" by simp
  then have sd: "side_of_pic p = Some Front" by (simp add: front_pics_of_def)
  from extract_number_sided [OF sd] sd have "extract_number p \<le> 25"
    by (auto simp: side_of_pic_Some pic_name_def)
  with Cons show ?thesis by (simp add: side_of_list_def is_front_list_def)
qed

lemma back_pics_side: "back_pics_of pics \<noteq> [] \<Longrightarrow> side_of_list (back_pics_of pics) = Back"
proof (cases "back_pics_of pics")
  case Nil
  assume "back_pics_of pics \<noteq> []"
  with Nil show ?thesis by simp
next
  case (Cons p ps)
  then have "p \<in> set (back_pics_of pics)" by simp
  then have sd: "side_of_pic p = Some Back" by (simp add: back_pics_of_def)
  from extract_number_sided [OF sd] sd have "26 \<le> extract_number p"
    by (auto simp: side_of_pic_Some pic_name_def)
  with Cons show ?thesis by (simp add: side_of_list_def is_front_list_def)
qed

lemma prefixed_pics_in_column:
  assumes "has_camera_prefix (pic_name p)" and "column p = Some c"
  shows "pics_in_column pics c (take 3 (pic_name p)) =
     sort_key extract_number
       (filter (\<lambda>q. column q = column p \<and> take 3 (pic_name q) = take 3 (pic_name p)) pics)"
proof -
  from assms(1) have "take 3 (pic_name p) = ''p1_'' \<or> take 3 (pic_name p) = ''p2_''"
    by (auto simp: has_camera_prefix_def py_startswith_def numeral_3_eq_3)
  then have "length (take 3 (pic_name p)) = length ''p1_''"
    by (auto dest: arg_cong [where f = length])
  then have "length (take 3 (pic_name p)) = 3" by simp
  then have "\<And>q. py_startswith (dict_get (connectButtonName q) []) (take 3 (pic_name p))
      = (take 3 (pic_name q) = take 3 (pic_name p))"
    by (simp add: py_startswith_def pic_name_def)
  with assms(2) show ?thesis by (simp add: pics_in_column_def)
qed

lemma column_parity:
  assumes "1 \<le> c" and "c \<le> 10"
  shows "(c \<in> {1, 2, 5, 6, 9, 10}) = (c \<notin> set [3, 4, 7, 8])"
    and "c \<in> {3, 4, 7, 8} \<longleftrightarrow> c \<in> set [3, 4, 7, 8::int]"
proof -
  from assms have "c = 1 \<or> c = 2 \<or> c = 3 \<or> c = 4 \<or> c = 5 \<or> c = 6 \<or> c = 7 \<or>
      c = 8 \<or> c = 9 \<or> c = 10" by arith
  then show "(c \<in> {1, 2, 5, 6, 9, 10}) = (c \<notin> set [3, 4, 7, 8])"
    by (elim disjE) simp_all
  show "c \<in> {3, 4, 7, 8} \<longleftrightarrow> c \<in> set [3, 4, 7, 8::int]" by simp
qed

lemma placed_row_serpentine:
  assumes "has_camera_prefix (pic_name p)" and "p \<in> set pics" and "column p = Some c"
    and "1 \<le> c" and "c \<le> 10"
  shows "serpentine_row (if is_front then Front else Back) c (position_in_column pics p)
           = Some (placed_row is_front pics p)"
proof -
  have mem: "p \<in> set (pics_in_column pics c (take 3 (pic_name p)))"
    using assms(2,3) by (simp add: prefixed_pics_in_column [OF assms(1,3)])
  have idx: "list_index p (pics_in_column pics c (take 3 (pic_name p))) = position_in_column pics p"
    by (simp add: prefixed_pics_in_column [OF assms(1,3)] position_in_column_def)
  have col: "dict_get (column p) 1 = c" using assms(3) by (simp add: dict_get_def)
  note par = column_parity [OF assms(4,5)]
  show ?thesis
  proof (cases "c \<in> set [3, 4, 7, 8]")
    case True
    then have "serpentine_row (if is_front then Front else Back) c (position_in_column pics p)
        = Some (if is_front then int (position_in_column pics p) + 1
                else 5 - int (position_in_column pics p))"
      unfolding serpentine_row_def par(1) [symmetric] using par by simp
    moreover have "placed_row is_front pics p =
        (if is_front then int (position_in_column pics p) + 1
         else 5 - int (position_in_column pics p))"
      unfolding placed_row_def front_row_def back_row_def col Let_def
      using mem idx True by simp
    ultimately show ?thesis by simp
  next
    case False
    then have "serpentine_row (if is_front then Front else Back) c (position_in_column pics p)
        = Some (if is_front then 5 - int (position_in_column pics p)
                else int (position_in_column pics p) + 1)"
      unfolding serpentine_row_def using par by simp
    moreover have "placed_row is_front pics p =
        (if is_front then 5 - int (position_in_column pics p)
         else int (position_in_column pics p) + 1)"
      unfolding placed_row_def front_row_def back_row_def col Let_def
      using mem idx False by simp
    ultimately show ?thesis by simp
  qed
qed

subsection \<open>The sample front board\<close>

lemma sample_numbers:
  "extract_number (sample_pic ''p1_1'' c) = 1"
  "extract_number (sample_pic ''p1_2'' c) = 2"
  "extract_number (sample_pic ''p1_3'' c) = 3"
  "extract_number (sample_pic ''p1_4'' c) = 4"
  "extract_number (sample_pic ''p1_5'' c) = 5"
  "extract_number (sample_pic ''p1_11'' c) = 11"
  "extract_number (sample_pic ''p1_12'' c) = 12"
  "extract_number (sample_pic ''p1_13'' c) = 13"
  "extract_number (sample_pic ''p1_14'' c) = 14"
  "extract_number (sample_pic ''p1_15'' c) = 15"
  by (simp_all add: extract_number_def sample_pic_def dict_get_def py_int_def py_strip_def
      strip_by_def py_isspace_def py_unsigned_def is_digit_def digit_val_def)

lemma sample_front_prefixed: "\<forall>p \<in> set sample_front. has_camera_prefix (pic_name p)"
  by (simp add: sample_front_def sample_pic_def pic_name_def dict_get_def
      has_camera_prefix_def py_startswith_def)

lemma sample_is_front: "is_front_list sample_front"
  by (simp add: is_front_list_def sample_front_def sample_numbers)

lemma sample_column_1:
  "pics_in_column sample_front 1 ''p1_'' =
     [sample_pic ''p1_1'' 1, sample_pic ''p1_2'' 1, sample_pic ''p1_3'' 1,
      sample_pic ''p1_4'' 1, sample_pic ''p1_5'' 1]"
proof -
  have "filter (\<lambda>p. column p = Some 1 \<and> py_startswith (dict_get (connectButtonName p) []) ''p1_'')
          sample_front =
     [sample_pic ''p1_1'' 1, sample_pic ''p1_2'' 1, sample_pic ''p1_3'' 1,
      sample_pic ''p1_4'' 1, sample_pic ''p1_5'' 1]"
    by (simp add: sample_front_def sample_pic_def dict_get_def py_startswith_def)
  then show ?thesis by (simp add: pics_in_column_def sample_numbers)
qed

lemma sample_column_3:
  "pics_in_column sample_front 3 ''p1_'' =
     [sample_pic ''p1_11'' 3, sample_pic ''p1_12'' 3, sample_pic ''p1_13'' 3,
      sample_pic ''p1_14'' 3, sample_pic ''p1_15'' 3]"
proof -
  have "filter (\<lambda>p. column p = Some 3 \<and> py_startswith (dict_get (connectButtonName p) []) ''p1_'')
          sample_front =
     [sample_pic ''p1_11'' 3, sample_pic ''p1_12'' 3, sample_pic ''p1_13'' 3,
      sample_pic ''p1_14'' 3, sample_pic ''p1_15'' 3]"
    by (simp add: sample_front_def sample_pic_def dict_get_def py_startswith_def)
  then show ?thesis by (simp add: pics_in_column_def sample_numbers)
qed

lemma sample_pic_simps [simp]:
  "column (sample_pic name c) = Some c"
  "pic_name (sample_pic name c) = name"
  "(sample_pic name c = sample_pic name' c') = (name = name' \<and> c = c')"
  by (auto simp add: sample_pic_def pic_name_def dict_get_def)

lemma sample_rows_column_1:
  "placed_row True sample_front (sample_pic ''p1_1'' 1) = 5"
  "placed_row True sample_front (sample_pic ''p1_2'' 1) = 4"
  "placed_row True sample_front (sample_pic ''p1_3'' 1) = 3"
  "placed_row True sample_front (sample_pic ''p1_4'' 1) = 2"
  "placed_row True sample_front (sample_pic ''p1_5'' 1) = 1"
  by (simp_all add: placed_row_def front_row_def sample_column_1 list_index_def
      dict_get_def Let_def)

lemma sample_rows_column_3:
  "placed_row True sample_front (sample_pic ''p1_11'' 3) = 1"
  "placed_row True sample_front (sample_pic ''p1_12'' 3) = 2"
  "placed_row True sample_front (sample_pic ''p1_13'' 3) = 3"
  "placed_row True sample_front (sample_pic ''p1_14'' 3) = 4"
  "placed_row True sample_front (sample_pic ''p1_15'' 3) = 5"
  by (simp_all add: placed_row_def front_row_def sample_column_3 list_index_def
      dict_get_def Let_def)

lemma sample_placed_rows:
  "map (placed_row True sample_front) sample_front = [5, 4, 3, 2, 1, 1, 2, 3, 4, 5]"
proof -
  have "map (placed_row True sample_front)
     [sample_pic ''p1_1'' 1, sample_pic ''p1_2'' 1, sample_pic ''p1_3'' 1,
      sample_pic ''p1_4'' 1, sample_pic ''p1_5'' 1,
      sample_pic ''p1_11'' 3, sample_pic ''p1_12'' 3, sample_pic ''p1_13'' 3,
      sample_pic ''p1_14'' 3, sample_pic ''p1_15'' 3] = [5, 4, 3, 2, 1, 1, 2, 3, 4, 5]"
    by (simp add: sample_rows_column_1 sample_rows_column_3)
  then show ?thesis by (subst (2) sample_front_def)
qed

lemma sample_front_rows:
  "map cell_row (drop 10 (snd (add_buttons sample_front))) = [5, 4, 3, 2, 1, 1, 2, 3, 4, 5]"
proof -
  have ne: "sample_front \<noteq> []" by (simp add: sample_front_def)
  have "map cell_row (drop 10 (snd (add_buttons sample_front)))
      = map (placed_row True sample_front) sample_front"
    using ne sample_is_front
    by (simp add: add_buttons_prefixed [OF sample_front_prefixed] column_labels_def
        button_cell_def comp_def)
  with sample_placed_rows show ?thesis by simp
qed


subsection \<open>The board layout\<close>

text \<open>
  C2. For a list of entries that all carry a camera prefix (as every list that
  \<^verbatim>\<open>process_board_data\<close> passes does), \<^verbatim>\<open>add_buttons\<close> raises nothing and places the
  button of entry \<open>i\<close>, when its column \<open>c\<close> is one of 1 to 10, at grid column \<open>c - 1\<close>
  and at the row the serpentine rule gives for the side of the list, the column and
  the entry's position in its column. The front list of \<^verbatim>\<open>process_board_data\<close> is
  laid out as a front side, its back list, when not empty, as a back side. On the
  sample front board column 1 gets the rows 5, 4, 3, 2, 1 and column 3 the rows
  1, 2, 3, 4, 5.
\<close>

theorem board_layout_serpentine:
  "(\<forall>pics i c.
      (\<forall>p \<in> set pics. has_camera_prefix (pic_name p)) \<and> i < length pics \<and>
      column (pics ! i) = Some c \<and> 1 \<le> c \<and> c \<le> 10 \<longrightarrow>
        fst (add_buttons pics) = None \<and>
        cell_widget (snd (add_buttons pics) ! (10 + i))
          = ImageButton (pic_name (pics ! i)) (pics ! i) \<and>
        cell_col (snd (add_buttons pics) ! (10 + i)) = c - 1 \<and>
        Some (cell_row (snd (add_buttons pics) ! (10 + i)))
          = serpentine_row (side_of_list pics) c (position_in_column pics (pics ! i))) \<and>
   (\<forall>doc board pics b.
      currentBlackboard doc = Some board \<and> all_pic_info board = Some pics \<and> pics \<noteq> [] \<longrightarrow>
        front_view (process_board_data (Some doc) b) = snd (add_buttons (front_pics_of pics)) \<and>
        back_view (process_board_data (Some doc) b) = snd (add_buttons (back_pics_of pics)) \<and>
        (\<forall>p \<in> set (front_pics_of pics) \<union> set (back_pics_of pics).
           has_camera_prefix (pic_name p)) \<and>
        side_of_list (front_pics_of pics) = Front \<and>
        (back_pics_of pics \<noteq> [] \<longrightarrow> side_of_list (back_pics_of pics) = Back)) \<and>
   map cell_row (drop 10 (snd (add_buttons sample_front))) = [5, 4, 3, 2, 1, 1, 2, 3, 4, 5] \<and>
   map cell_col (drop 10 (snd (add_buttons sample_front))) = [0, 0, 0, 0, 0, 2, 2, 2, 2, 2]"
proof (intro conjI allI impI)
  fix pics :: "pic_info list" and i c
  assume a: "(\<forall>p \<in> set pics. has_camera_prefix (pic_name p)) \<and> i < length pics \<and>
      column (pics ! i) = Some c \<and> 1 \<le> c \<and> c \<le> 10"
  then have pre: "\<forall>p \<in> set pics. has_camera_prefix (pic_name p)" and i: "i < length pics"
    and c: "column (pics ! i) = Some c" "1 \<le> c" "c \<le> 10" by simp_all
  from i have mem: "pics ! i \<in> set pics" by simp
  with pre have pi: "has_camera_prefix (pic_name (pics ! i))" by blast
  note cell = add_buttons_cell [OF pre i]
  show "fst (add_buttons pics) = None" by (rule add_buttons_prefixed_pics(1) [OF pre])
  show "cell_widget (snd (add_buttons pics) ! (10 + i))
          = ImageButton (pic_name (pics ! i)) (pics ! i)"
    unfolding cell by (simp add: button_cell_def)
  show "cell_col (snd (add_buttons pics) ! (10 + i)) = c - 1"
    unfolding cell using c(1) by (simp add: button_cell_def dict_get_def)
  show "Some (cell_row (snd (add_buttons pics) ! (10 + i)))
          = serpentine_row (side_of_list pics) c (position_in_column pics (pics ! i))"
    unfolding cell side_of_list_def
    using placed_row_serpentine [OF pi mem c, of "is_front_list pics"]
    by (simp add: button_cell_def)
next
  fix doc :: document and board :: blackboard and pics :: "pic_info list" and b :: boards
  assume d: "currentBlackboard doc = Some board \<and> all_pic_info board = Some pics \<and> pics \<noteq> []"
  then have d1: "currentBlackboard doc = Some board" and d2: "all_pic_info board = Some pics"
    and d3: "pics \<noteq> []" by simp_all
  note eq = process_board_data_boards [OF d1 d2 d3, of b]
  show "front_view (process_board_data (Some doc) b) = snd (add_buttons (front_pics_of pics))"
    unfolding eq by simp
  show "back_view (process_board_data (Some doc) b) = snd (add_buttons (back_pics_of pics))"
    unfolding eq by simp
  show "\<forall>p \<in> set (front_pics_of pics) \<union> set (back_pics_of pics).
           has_camera_prefix (pic_name p)"
    by (auto simp: front_pics_of_def back_pics_of_def intro: side_prefixed)
  show "side_of_list (front_pics_of pics) = Front" by (rule front_pics_side)
  assume "back_pics_of pics \<noteq> []"
  then show "side_of_list (back_pics_of pics) = Back" by (rule back_pics_side)
next
  show "map cell_row (drop 10 (snd (add_buttons sample_front))) = [5, 4, 3, 2, 1, 1, 2, 3, 4, 5]"
    by (rule sample_front_rows)
next
  have ne: "sample_front \<noteq> []" by (simp add: sample_front_def)
  have "map cell_col (drop 10 (snd (add_buttons sample_front)))
      = map (\<lambda>p. dict_get (column p) 1 - 1) sample_front"
    using ne
    by (simp add: add_buttons_prefixed [OF sample_front_prefixed] column_labels_def
        button_cell_def comp_def)
  also have "\<dots> = [0, 0, 0, 0, 0, 2, 2, 2, 2, 2]"
    by (simp add: sample_front_def dict_get_def)
  finally show "map cell_col (drop 10 (snd (add_buttons sample_front)))
      = [0, 0, 0, 0, 0, 2, 2, 2, 2, 2]" .
qed

text \<open>
  The sample front board: nothing is raised, the first entry sits in grid column 0,
  the sixth in grid column 2, and the rows are as listed.
\<close>

theorem board_layout_serpentine_witness:
  "fst (add_buttons sample_front) = None \<and>
   cell_widget (snd (add_buttons sample_front) ! 10)
     = ImageButton ''p1_1'' (sample_pic ''p1_1'' 1) \<and>
   cell_col (snd (add_buttons sample_front) ! 10) = 0 \<and>
   cell_col (snd (add_buttons sample_front) ! 15) = 2 \<and>
   map cell_row (drop 10 (snd (add_buttons sample_front))) = [5, 4, 3, 2, 1, 1, 2, 3, 4, 5]"
proof -
  have s: "length sample_front = 10" "sample_front ! 0 = sample_pic ''p1_1'' 1"
    "sample_front ! 5 = sample_pic ''p1_11'' 3"
    by (simp_all add: sample_front_def)
  from board_layout_serpentine have g: "\<And>i c.
      i < length sample_front \<Longrightarrow> column (sample_front ! i) = Some c \<Longrightarrow> 1 \<le> c \<Longrightarrow> c \<le> 10 \<Longrightarrow>
        fst (add_buttons sample_front) = None \<and>
        cell_widget (snd (add_buttons sample_front) ! (10 + i))
          = ImageButton (pic_name (sample_front ! i)) (sample_front ! i) \<and>
        cell_col (snd (add_buttons sample_front) ! (10 + i)) = c - 1"
    and rows: "map cell_row (drop 10 (snd (add_buttons sample_front))) = [5, 4, 3, 2, 1, 1, 2, 3, 4, 5]"
    using sample_front_prefixed by blast+
  from g [of 0 1] g [of 5 3] rows s show ?thesis by simp
qed

subsection \<open>Entries left off both boards\<close>




end
